theory Spec2Isabelle
  imports Main "HOL-Library.Sublist" "HOL-Library.AList"
begin

section \<open>lambda-openapi: metadata store, inference heuristics and spec assembler\<close>

text \<open>
  A shallow embedding of the TypeScript sources
  \<^verbatim>\<open>src/generator/openapi-generator.ts\<close>, \<^verbatim>\<open>src/utils/metadata.ts\<close>,
  \<^verbatim>\<open>src/decorators/api-operation.ts\<close>, \<^verbatim>\<open>src/decorators/api-param.ts\<close> and
  \<^verbatim>\<open>src/decorators/api-response.ts\<close>.

  Modelling conventions.
  \<^item> A JavaScript string is a \<open>string\<close> (a list of characters). Names are taken to be
    ASCII: \<open>toLowerCase\<close> maps \<open>A\<close>..\<open>Z\<close> to \<open>a\<close>..\<open>z\<close> and leaves every other
    character alone, which is what JavaScript does on ASCII input.
  \<^item> An optional field is an \<open>option\<close>; \<open>undefined\<close> is \<open>None\<close>. JavaScript
    truthiness is written out where the source tests a value with \<open>if (v)\<close> or
    \<open>v || d\<close>: the empty string is falsy, an object, array or function is truthy.
  \<^item> A plain object used as a dictionary (\<open>Record<string, T>\<close>) is an association
    list with distinct keys, written to with \<open>AList.update\<close> and read with
    \<open>map_of\<close>. The enumeration order of integer-like keys is not modelled.
  \<^item> The reflect-metadata side table and the two module-level counters are one
    explicit \<open>state\<close> record that every decorator takes and returns.
  \<^item> Numbers that count or index (\<open>order\<close>, \<open>status\<close>) are integers; the
    model does not follow IEEE doubles past \<open>2^53\<close>.
\<close>

subsection \<open>Strings\<close>

definition upperAZ :: string where
  "upperAZ = ''ABCDEFGHIJKLMNOPQRSTUVWXYZ''"

definition lowerAZ :: string where
  "lowerAZ = ''abcdefghijklmnopqrstuvwxyz''"

text \<open>The character class \<^verbatim>\<open>[A-Z]\<close>.\<close>

definition isUpperAZ :: "char \<Rightarrow> bool" where
  "isUpperAZ c = (c \<in> set upperAZ)"

definition toLowerChar :: "char \<Rightarrow> char" where
  "toLowerChar c = (case map_of (zip upperAZ lowerAZ) c of Some d \<Rightarrow> d | None \<Rightarrow> c)"

text \<open>\<^verbatim>\<open>String.prototype.toLowerCase\<close> on ASCII.\<close>

definition toLowerCase :: "string \<Rightarrow> string" where
  "toLowerCase s = map toLowerChar s"

text \<open>\<^verbatim>\<open>s.startsWith(p)\<close> and \<^verbatim>\<open>s.includes(sub)\<close>.\<close>

fun startsWith :: "string \<Rightarrow> string \<Rightarrow> bool" where
  "startsWith s [] = True"
| "startsWith [] (p # ps) = False"
| "startsWith (c # cs) (p # ps) = (c = p \<and> startsWith cs ps)"

fun includesStr :: "string \<Rightarrow> string \<Rightarrow> bool" where
  "includesStr [] sub = (sub = [])"
| "includesStr (c # cs) sub = (startsWith (c # cs) sub \<or> includesStr cs sub)"

subsection \<open>Inference heuristics\<close>

text \<open>\<^verbatim>\<open>.replace(/Handler$/, '')\<close>: drop the seven characters when the string ends with them.\<close>

definition removeHandlerSuffix :: "string \<Rightarrow> string" where
  "removeHandlerSuffix s =
     (if startsWith (rev s) (rev ''Handler'') then take (length s - 7) s else s)"

text \<open>\<^verbatim>\<open>.replace(/([A-Z])/g, '-$1')\<close>: a dash in front of every upper-case letter.\<close>

fun dashBeforeUpper :: "string \<Rightarrow> string" where
  "dashBeforeUpper [] = []"
| "dashBeforeUpper (c # cs) =
     (if isUpperAZ c then CHR ''-'' # c # dashBeforeUpper cs else c # dashBeforeUpper cs)"

text \<open>\<^verbatim>\<open>.replace(/^-/, '')\<close>: drop one dash at the start, if there is one.\<close>

fun removeLeadingDash :: "string \<Rightarrow> string" where
  "removeLeadingDash [] = []"
| "removeLeadingDash (c # cs) = (if c = CHR ''-'' then cs else c # cs)"

definition generatePathFromFunction :: "string \<Rightarrow> string" where
  "generatePathFromFunction functionName =
     (let pathName = removeLeadingDash (toLowerCase (dashBeforeUpper (removeHandlerSuffix functionName)))
      in CHR ''/'' # pathName)"

definition determineHttpMethod :: "string \<Rightarrow> string" where
  "determineHttpMethod functionName =
     (let lowerName = toLowerCase functionName in
      if includesStr lowerName ''get'' \<or> includesStr lowerName ''list'' \<or> includesStr lowerName ''find''
        then ''get''
      else if includesStr lowerName ''post'' \<or> includesStr lowerName ''create'' then ''post''
      else if includesStr lowerName ''put'' \<or> includesStr lowerName ''update'' then ''put''
      else if includesStr lowerName ''delete'' \<or> includesStr lowerName ''remove'' then ''delete''
      else if includesStr lowerName ''patch'' then ''patch''
      else ''get'')"

subsection \<open>Data model\<close>

text \<open>Values of type \<^verbatim>\<open>any\<close> (examples, enum members, opaque configuration sections).\<close>

datatype json =
    JNull
  | JBool bool
  | JNum int
  | JStr string
  | JArr "json list"
  | JObj "(string \<times> json) list"

text \<open>
  \<^verbatim>\<open>TypeReference = TypeConstructor | string\<close>. A constructor is known by its
  \<^verbatim>\<open>name\<close> property. \<open>TypeOther\<close> stands for a truthy value that is neither a string
  nor a function; the declared type excludes it, the generator still has a branch for it.
\<close>

datatype TypeReference =
    TypeString string
  | TypeConstructor string
  | TypeOther

fun truthyType :: "TypeReference \<Rightarrow> bool" where
  "truthyType (TypeString s) = (s \<noteq> [])"
| "truthyType (TypeConstructor n) = True"
| "truthyType TypeOther = True"

datatype SchemaObject =
  SchemaObject (schemaType: "string option") (schemaItems: "SchemaObject option")
    (schemaDescription: "string option") (schemaEnum: "json list option")

record MediaTypeObject =
  schema :: "SchemaObject option"
  example :: "json option"

record ApiOperationOptions =
  summary :: string
  description :: "string option"
  tags :: "string list option"
  operationId :: "string option"
  deprecated :: "bool option"

record ApiOperationMetadata = ApiOperationOptions +
  functionName :: string
  filePath :: "string option"

record ApiResponseOptions =
  status :: int
  response_description :: "string option"
  response_type :: "TypeReference option"
  response_example :: "json option"
  response_headers :: "json option"
  response_content :: "(string \<times> MediaTypeObject) list option"

record ApiResponseMetadata = ApiResponseOptions +
  order :: int

record ApiParamOptions =
  name :: string
  param_description :: "string option"
  required :: "bool option"
  param_type :: "TypeReference option"
  param_example :: "json option"
  param_enum :: "json list option"
  param_deprecated :: "bool option"

record ApiParamMetadata = ApiParamOptions +
  param_in :: string
  param_order :: int

text \<open>
  \<^verbatim>\<open>HandlerMetadata\<close>. The generator reads \<open>operation\<close>, \<open>responses\<close> and
  \<open>params\<close> only; \<open>queries\<close>, \<open>body\<close>, \<open>security\<close> and \<open>tags\<close> are fetched and
  never used, and their decorators are not implemented, so they are left out.
\<close>

record HandlerMetadata =
  operation :: "ApiOperationMetadata option"
  responses :: "ApiResponseMetadata list"
  params :: "ApiParamMetadata list"

record ParameterObject =
  p_name :: string
  p_in :: string
  p_required :: "bool option"
  p_description :: "string option"
  p_deprecated :: "bool option"
  p_example :: "json option"
  p_schema :: "SchemaObject option"

record ResponseObject =
  r_description :: string
  r_content :: "(string \<times> MediaTypeObject) list option"

record OperationObject =
  o_summary :: "string option"
  o_description :: "string option"
  o_tags :: "string list option"
  o_operationId :: "string option"
  o_deprecated :: "bool option"
  o_parameters :: "ParameterObject list option"
  o_responses :: "(string \<times> ResponseObject) list"

type_synonym PathItemObject = "(string \<times> OperationObject) list"

record InfoObject =
  title :: string
  version :: string
  info_description :: "string option"

text \<open>The optional sections of the configuration are arrays or objects (always truthy when present) and are copied as they are.\<close>

record GeneratorConfig =
  info :: InfoObject
  servers :: "json option"
  security :: "json option"
  config_tags :: "json option"
  externalDocs :: "json option"

record OpenAPISpec =
  openapi :: string
  spec_info :: InfoObject
  spec_servers :: "json option"
  spec_security :: "json option"
  spec_tags :: "json option"
  spec_externalDocs :: "json option"
  paths :: "(string \<times> PathItemObject) list"
  components :: "json option"

subsection \<open>Metadata store\<close>

text \<open>
  A handler is a function object: \<open>fn_id\<close> is its identity, \<open>fn_name\<close> its
  \<^verbatim>\<open>name\<close> property. The store is keyed by the object.
\<close>

record handler =
  fn_id :: nat
  fn_name :: string

record state =
  operationMeta :: "handler \<Rightarrow> ApiOperationMetadata option"
  responsesMeta :: "handler \<Rightarrow> ApiResponseMetadata list option"
  paramsMeta :: "handler \<Rightarrow> ApiParamMetadata list option"
  responseOrder :: int
  paramOrder :: int

definition initialState :: state where
  "initialState =
     \<lparr>operationMeta = (\<lambda>h. None), responsesMeta = (\<lambda>h. None), paramsMeta = (\<lambda>h. None),
      responseOrder = 0, paramOrder = 0\<rparr>"

definition setOperation :: "handler \<Rightarrow> ApiOperationMetadata \<Rightarrow> state \<Rightarrow> state" where
  "setOperation target metadata s = s\<lparr>operationMeta := (operationMeta s)(target \<mapsto> metadata)\<rparr>"

definition getOperation :: "state \<Rightarrow> handler \<Rightarrow> ApiOperationMetadata option" where
  "getOperation s target = operationMeta s target"

definition getResponses :: "state \<Rightarrow> handler \<Rightarrow> ApiResponseMetadata list" where
  "getResponses s target = (case responsesMeta s target of Some rs \<Rightarrow> rs | None \<Rightarrow> [])"

text \<open>\<^verbatim>\<open>[...existing, metadata].sort((a, b) => a.order - b.order)\<close>: a stable sort on \<open>order\<close>.\<close>

definition addResponse :: "handler \<Rightarrow> ApiResponseMetadata \<Rightarrow> state \<Rightarrow> state" where
  "addResponse target metadata s =
     (let existing = getResponses s target;
          updated = sort_key order (existing @ [metadata])
      in s\<lparr>responsesMeta := (responsesMeta s)(target \<mapsto> updated)\<rparr>)"

definition getParams :: "state \<Rightarrow> handler \<Rightarrow> ApiParamMetadata list" where
  "getParams s target = (case paramsMeta s target of Some ps \<Rightarrow> ps | None \<Rightarrow> [])"

definition addParam :: "handler \<Rightarrow> ApiParamMetadata \<Rightarrow> state \<Rightarrow> state" where
  "addParam target metadata s =
     (let existing = getParams s target;
          updated = sort_key param_order (existing @ [metadata])
      in s\<lparr>paramsMeta := (paramsMeta s)(target \<mapsto> updated)\<rparr>)"

definition getHandlerMetadata :: "state \<Rightarrow> handler \<Rightarrow> HandlerMetadata" where
  "getHandlerMetadata s target =
     \<lparr>operation = getOperation s target,
      responses = getResponses s target,
      params = getParams s target\<rparr>"

definition clearMetadata :: "handler \<Rightarrow> state \<Rightarrow> state" where
  "clearMetadata target s =
     s\<lparr>operationMeta := (operationMeta s)(target := None),
       responsesMeta := (responsesMeta s)(target := None),
       paramsMeta := (paramsMeta s)(target := None)\<rparr>"

subsection \<open>Decorators\<close>

text \<open>
  A decorator is applied to \<open>target\<close>, with the property key and the value of the
  property descriptor when it decorates a method.
  \<^verbatim>\<open>descriptor?.value || target\<close> is the function the metadata is stored on.
\<close>

definition targetFunction :: "handler \<Rightarrow> handler option \<Rightarrow> handler" where
  "targetFunction target descriptor = (case descriptor of Some v \<Rightarrow> v | None \<Rightarrow> target)"

definition ApiOperation ::
  "ApiOperationOptions \<Rightarrow> handler \<Rightarrow> string option \<Rightarrow> handler option \<Rightarrow> state \<Rightarrow> state" where
  "ApiOperation options target propertyKey descriptor s =
     (let fname =
            (case propertyKey of
               Some k \<Rightarrow> if k \<noteq> [] then k
                         else if fn_name target \<noteq> [] then fn_name target else ''anonymous''
             | None \<Rightarrow> if fn_name target \<noteq> [] then fn_name target else ''anonymous'');
          metadata =
            \<lparr>summary = summary options,
             description = description options,
             tags = tags options,
             operationId = operationId options,
             deprecated = deprecated options,
             functionName = fname,
             filePath = None\<rparr>
      in setOperation (targetFunction target descriptor) metadata s)"

definition ApiResponse :: "ApiResponseOptions \<Rightarrow> handler \<Rightarrow> handler option \<Rightarrow> state \<Rightarrow> state" where
  "ApiResponse options target descriptor s =
     (let metadata =
            \<lparr>status = status options,
             response_description = response_description options,
             response_type = response_type options,
             response_example = response_example options,
             response_headers = response_headers options,
             response_content = response_content options,
             order = responseOrder s\<rparr>;
          s' = s\<lparr>responseOrder := responseOrder s + 1\<rparr>
      in addResponse (targetFunction target descriptor) metadata s')"

definition hasApiResponse :: "state \<Rightarrow> handler \<Rightarrow> bool" where
  "hasApiResponse s target = (length (getResponses s target) > 0)"

definition getApiResponses :: "state \<Rightarrow> handler \<Rightarrow> ApiResponseMetadata list" where
  "getApiResponses s target = getResponses s target"

definition getApiResponse :: "state \<Rightarrow> handler \<Rightarrow> int \<Rightarrow> ApiResponseMetadata option" where
  "getApiResponse s target st = find (\<lambda>response. status response = st) (getResponses s target)"

definition resetResponseOrder :: "state \<Rightarrow> state" where
  "resetResponseOrder s = s\<lparr>responseOrder := 0\<rparr>"

definition ApiParam :: "ApiParamOptions \<Rightarrow> handler \<Rightarrow> handler option \<Rightarrow> state \<Rightarrow> state" where
  "ApiParam options target descriptor s =
     (let metadata =
            \<lparr>name = name options,
             param_description = param_description options,
             required = Some (case required options of Some b \<Rightarrow> b | None \<Rightarrow> True),
             param_type = param_type options,
             param_example = param_example options,
             param_enum = param_enum options,
             param_deprecated = param_deprecated options,
             param_in = ''path'',
             param_order = paramOrder s\<rparr>;
          s' = s\<lparr>paramOrder := paramOrder s + 1\<rparr>
      in addParam (targetFunction target descriptor) metadata s')"

definition resetParamOrder :: "state \<Rightarrow> state" where
  "resetParamOrder s = s\<lparr>paramOrder := 0\<rparr>"

subsection \<open>Schema mapper\<close>

definition generateSchemaFromStringType :: "string \<Rightarrow> SchemaObject" where
  "generateSchemaFromStringType t =
     (if t = ''string'' then SchemaObject (Some ''string'') None None None
      else if t = ''number'' then SchemaObject (Some ''number'') None None None
      else if t = ''integer'' then SchemaObject (Some ''integer'') None None None
      else if t = ''boolean'' then SchemaObject (Some ''boolean'') None None None
      else if t = ''array''
        then SchemaObject (Some ''array'') (Some (SchemaObject (Some ''string'') None None None))
               None None
      else if t = ''object'' then SchemaObject (Some ''object'') None None None
      else SchemaObject (Some ''string'') None None None)"

fun generateSchemaFromType :: "TypeReference \<Rightarrow> SchemaObject" where
  "generateSchemaFromType (TypeString t) = generateSchemaFromStringType t"
| "generateSchemaFromType (TypeConstructor n) =
     SchemaObject (Some ''object'') None (Some (''Schema for '' @ n)) None"
| "generateSchemaFromType TypeOther = SchemaObject (Some ''object'') None None None"

subsection \<open>Numbers as strings\<close>

text \<open>
  \<^verbatim>\<open>Number.prototype.toString\<close> on an integer: decimal digits, with a minus sign for a
  negative number.
\<close>

definition digitChar :: "nat \<Rightarrow> char" where
  "digitChar d = ''0123456789'' ! (d mod 10)"

function digitsOf :: "nat \<Rightarrow> string" where
  "digitsOf n = (if n < 10 then [digitChar n] else digitsOf (n div 10) @ [digitChar (n mod 10)])"
  by pat_completeness auto
termination
  by (relation "measure (\<lambda>n. n)") auto

declare digitsOf.simps [simp del]

definition numberToString :: "int \<Rightarrow> string" where
  "numberToString i = (if i < 0 then CHR ''-'' # digitsOf (nat (- i)) else digitsOf (nat i))"

subsection \<open>Spec assembler\<close>

definition generateParameter :: "ApiParamMetadata \<Rightarrow> ParameterObject" where
  "generateParameter paramMetadata =
     (let parameter =
            \<lparr>p_name = name paramMetadata,
             p_in = param_in paramMetadata,
             p_required = required paramMetadata,
             p_description = None, p_deprecated = None, p_example = None, p_schema = None\<rparr>;
          parameter =
            (case param_description paramMetadata of
               Some d \<Rightarrow> if d \<noteq> [] then parameter\<lparr>p_description := Some d\<rparr> else parameter
             | None \<Rightarrow> parameter);
          parameter =
            (case param_deprecated paramMetadata of
               Some b \<Rightarrow> if b then parameter\<lparr>p_deprecated := Some b\<rparr> else parameter
             | None \<Rightarrow> parameter);
          parameter =
            (case param_example paramMetadata of
               Some e \<Rightarrow> parameter\<lparr>p_example := Some e\<rparr>
             | None \<Rightarrow> parameter);
          parameter =
            (case param_type paramMetadata of
               Some t \<Rightarrow> if truthyType t then parameter\<lparr>p_schema := Some (generateSchemaFromType t)\<rparr>
                         else parameter
             | None \<Rightarrow> parameter);
          parameter =
            (case param_enum paramMetadata of
               Some vs \<Rightarrow>
                 parameter\<lparr>p_schema :=
                   Some (case p_schema parameter of
                           Some (SchemaObject t i d e) \<Rightarrow> SchemaObject t i d (Some vs)
                         | None \<Rightarrow> SchemaObject None None None (Some vs))\<rparr>
             | None \<Rightarrow> parameter)
      in parameter)"

text \<open>
  The body of the \<^verbatim>\<open>forEach\<close> callback of \<^verbatim>\<open>generateResponses\<close>, up to the write
  into \<^verbatim>\<open>responses\<close>: the response object built from one metadata entry. A
  custom \<^verbatim>\<open>content\<close> is a dictionary of media-type objects. The source shares that
  object between the response and the stored metadata, so its write of \<^verbatim>\<open>example\<close>
  reaches the store too; the model passes values, the content objects of different
  annotations are taken to be different objects, and nothing below reads the store after
  an assembly.
\<close>

definition responseFromMetadata :: "ApiResponseMetadata \<Rightarrow> ResponseObject" where
  "responseFromMetadata responseMeta =
     (let statusCode = numberToString (status responseMeta);
          response =
            \<lparr>r_description =
               (case response_description responseMeta of
                  Some d \<Rightarrow> if d \<noteq> [] then d else ''Response '' @ statusCode
                | None \<Rightarrow> ''Response '' @ statusCode),
             r_content = None\<rparr>;
          response =
            (case response_type responseMeta of
               Some t \<Rightarrow>
                 if truthyType t
                 then response\<lparr>r_content :=
                        Some [(''application/json'',
                               \<lparr>schema = Some (generateSchemaFromType t), example = None\<rparr>)]\<rparr>
                 else response
             | None \<Rightarrow> response);
          response =
            (case response_content responseMeta of
               Some c \<Rightarrow> response\<lparr>r_content := Some c\<rparr>
             | None \<Rightarrow> response);
          response =
            (case response_example responseMeta of
               Some e \<Rightarrow>
                 (case r_content response of
                    Some c \<Rightarrow>
                      (case map_of c ''application/json'' of
                         Some mt \<Rightarrow>
                           response\<lparr>r_content :=
                             Some (AList.update ''application/json'' (mt\<lparr>example := Some e\<rparr>) c)\<rparr>
                       | None \<Rightarrow> response)
                  | None \<Rightarrow> response)
             | None \<Rightarrow> response)
      in response)"

text \<open>The \<^verbatim>\<open>forEach\<close> loop of \<^verbatim>\<open>generateResponses\<close>: every entry writes its key.\<close>

definition collectResponses :: "ApiResponseMetadata list \<Rightarrow> (string \<times> ResponseObject) list" where
  "collectResponses responseMetadata =
     foldl (\<lambda>acc responseMeta.
              AList.update (numberToString (status responseMeta))
                (responseFromMetadata responseMeta) acc)
           [] responseMetadata"

definition generateResponses :: "ApiResponseMetadata list \<Rightarrow> (string \<times> ResponseObject) list" where
  "generateResponses responseMetadata =
     (let collected = collectResponses responseMetadata
      in if length collected = 0
         then [(''200'', \<lparr>r_description = ''Successful response'', r_content = None\<rparr>)]
         else collected)"

definition generateOperation :: "HandlerMetadata \<Rightarrow> OperationObject" where
  "generateOperation metadata =
     (let op =
            \<lparr>o_summary = None, o_description = None, o_tags = None, o_operationId = None,
             o_deprecated = None, o_parameters = None, o_responses = []\<rparr>;
          op =
            (case operation metadata of
               Some m \<Rightarrow>
                 op\<lparr>o_summary := Some (summary m),
                    o_description := description m,
                    o_tags := tags m,
                    o_operationId := operationId m,
                    o_deprecated := deprecated m\<rparr>
             | None \<Rightarrow> op);
          op =
            (if length (params metadata) > 0
             then op\<lparr>o_parameters := Some (map generateParameter (params metadata))\<rparr>
             else op)
      in op\<lparr>o_responses := generateResponses (responses metadata)\<rparr>)"

text \<open>One turn of the \<^verbatim>\<open>handlers.forEach\<close> loop of \<^verbatim>\<open>generatePaths\<close>.\<close>

definition addHandlerPath ::
  "state \<Rightarrow> (string \<times> PathItemObject) list \<Rightarrow> handler \<Rightarrow> (string \<times> PathItemObject) list" where
  "addHandlerPath s acc h =
     (let metadata = getHandlerMetadata s h in
      case operation metadata of
        None \<Rightarrow> acc
      | Some m \<Rightarrow>
          (let path = generatePathFromFunction (functionName m);
               op = generateOperation metadata;
               method = determineHttpMethod (functionName m);
               acc = (case map_of acc path of
                        None \<Rightarrow> AList.update path [] acc
                      | Some item \<Rightarrow> acc);
               item = (case map_of acc path of Some item \<Rightarrow> item | None \<Rightarrow> [])
           in AList.update path (AList.update method op item) acc))"

definition generatePaths :: "state \<Rightarrow> handler list \<Rightarrow> (string \<times> PathItemObject) list" where
  "generatePaths s handlers = foldl (addHandlerPath s) [] handlers"

definition generateComponents :: "handler list \<Rightarrow> json" where
  "generateComponents handlers = JObj []"

definition generateSpec :: "GeneratorConfig \<Rightarrow> state \<Rightarrow> handler list \<Rightarrow> OpenAPISpec" where
  "generateSpec config s handlers =
     \<lparr>openapi = ''3.0.0'',
      spec_info = info config,
      spec_servers = servers config,
      spec_security = security config,
      spec_tags = config_tags config,
      spec_externalDocs = externalDocs config,
      paths = generatePaths s handlers,
      components = Some (generateComponents handlers)\<rparr>"

definition generateOpenApiSpec :: "GeneratorConfig \<Rightarrow> state \<Rightarrow> handler list \<Rightarrow> OpenAPISpec" where
  "generateOpenApiSpec config s handlers = generateSpec config s handlers"

section \<open>Specification-side definitions\<close>

subsection \<open>The path and method heuristics as the specification words them\<close>

text \<open>Strip a trailing \<open>Handler\<close> suffix.\<close>

definition stripTrailingHandler :: "string \<Rightarrow> string" where
  "stripTrailingHandler s =
     (if suffix ''Handler'' s then take (length s - length ''Handler'') s else s)"

text \<open>Insert a separator before each internal capital letter: one that is not the first character.\<close>

definition separateInternalCapitals :: "string \<Rightarrow> string" where
  "separateInternalCapitals s =
     concat (map (\<lambda>i. if 0 < i \<and> isUpperAZ (s ! i) then [CHR ''-'', s ! i] else [s ! i])
                 [0..<length s])"

text \<open>Strip a leading separator, when there is one.\<close>

definition stripLeadingSeparator :: "string \<Rightarrow> string" where
  "stripLeadingSeparator s = (if s \<noteq> [] \<and> hd s = CHR ''-'' then tl s else s)"

definition inferPath :: "string \<Rightarrow> string" where
  "inferPath handlerName =
     ''/'' @ stripLeadingSeparator
              (toLowerCase (separateInternalCapitals (stripTrailingHandler handlerName)))"

text \<open>The precedence table of the method heuristic, first rule first.\<close>

definition methodRules :: "(string list \<times> string) list" where
  "methodRules =
     [([''get'', ''list'', ''find''], ''get''),
      ([''post'', ''create''], ''post''),
      ([''put'', ''update''], ''put''),
      ([''delete'', ''remove''], ''delete''),
      ([''patch''], ''patch'')]"

text \<open>Some segment of the name equals the keyword once letter case is ignored.\<close>

definition containsIgnoringCase :: "string \<Rightarrow> string \<Rightarrow> bool" where
  "containsIgnoringCase handlerName kw =
     list_ex (\<lambda>i. toLowerCase (take (length kw) (drop i handlerName)) = toLowerCase kw)
             [0..<Suc (length handlerName)]"

definition inferMethod :: "string \<Rightarrow> string" where
  "inferMethod handlerName =
     (case find (\<lambda>rule. list_ex (containsIgnoringCase handlerName) (fst rule)) methodRules of
        Some rule \<Rightarrow> snd rule
      | None \<Rightarrow> ''get'')"

subsection \<open>Programs of decorator applications\<close>

text \<open>
  What a module does to the store while it is loaded: a sequence of decorator
  applications, counter resets and clears, run from left to right.
\<close>

datatype call =
    CallApiOperation ApiOperationOptions handler "string option" "handler option"
  | CallApiParam ApiParamOptions handler "handler option"
  | CallApiResponse ApiResponseOptions handler "handler option"
  | CallResetResponseOrder
  | CallResetParamOrder
  | CallClearMetadata handler

fun exec :: "call \<Rightarrow> state \<Rightarrow> state" where
  "exec (CallApiOperation options target propertyKey descriptor) s =
     ApiOperation options target propertyKey descriptor s"
| "exec (CallApiParam options target descriptor) s = ApiParam options target descriptor s"
| "exec (CallApiResponse options target descriptor) s = ApiResponse options target descriptor s"
| "exec CallResetResponseOrder s = resetResponseOrder s"
| "exec CallResetParamOrder s = resetParamOrder s"
| "exec (CallClearMetadata target) s = clearMetadata target s"

definition run :: "call list \<Rightarrow> state \<Rightarrow> state" where
  "run cs s = fold exec cs s"

text \<open>The response options a program applies to handler \<open>h\<close>, in application order.\<close>

fun responsesAppliedTo :: "handler \<Rightarrow> call list \<Rightarrow> ApiResponseOptions list" where
  "responsesAppliedTo h [] = []"
| "responsesAppliedTo h (CallApiResponse options target descriptor # cs) =
     (if targetFunction target descriptor = h then options # responsesAppliedTo h cs
      else responsesAppliedTo h cs)"
| "responsesAppliedTo h (c # cs) = responsesAppliedTo h cs"

text \<open>The metadata record \<open>ApiResponse\<close> builds from its options and the counter.\<close>

definition responseMetadataOf :: "ApiResponseOptions \<Rightarrow> int \<Rightarrow> ApiResponseMetadata" where
  "responseMetadataOf options n =
     \<lparr>status = status options,
      response_description = response_description options,
      response_type = response_type options,
      response_example = response_example options,
      response_headers = response_headers options,
      response_content = response_content options,
      order = n\<rparr>"

text \<open>
  The invariant of one handler's response collection while no counter reset happens:
  strictly increasing sequence indices, all below the counter.
\<close>

definition respInv :: "state \<Rightarrow> handler \<Rightarrow> bool" where
  "respInv s h \<longleftrightarrow>
     sorted_wrt (<) (map order (getResponses s h)) \<and>
     (\<forall>r \<in> set (getResponses s h). order r < responseOrder s)"

subsection \<open>Reading the assembled document\<close>

text \<open>\<^verbatim>\<open>paths[path][method]\<close>.\<close>

definition pathsLookup ::
  "(string \<times> PathItemObject) list \<Rightarrow> string \<Rightarrow> string \<Rightarrow> OperationObject option" where
  "pathsLookup ps path method =
     (case map_of ps path of None \<Rightarrow> None | Some item \<Rightarrow> map_of item method)"

definition lookupOperation :: "OpenAPISpec \<Rightarrow> string \<Rightarrow> string \<Rightarrow> OperationObject option" where
  "lookupOperation doc path method = pathsLookup (paths doc) path method"

text \<open>Every value an association list records under a key.\<close>

definition entriesAt :: "('k \<times> 'v) list \<Rightarrow> 'k \<Rightarrow> 'v list" where
  "entriesAt al k = map snd (filter (\<lambda>kv. fst kv = k) al)"

text \<open>Every operation the document records under a path and a method.\<close>

definition operationsAt :: "OpenAPISpec \<Rightarrow> string \<Rightarrow> string \<Rightarrow> OperationObject list" where
  "operationsAt doc path method =
     concat (map (\<lambda>item. entriesAt item method) (entriesAt (paths doc) path))"

text \<open>Handler \<open>h\<close> has operation metadata and the heuristics send it to \<open>(path, method)\<close>.\<close>

definition resolvesTo :: "state \<Rightarrow> string \<Rightarrow> string \<Rightarrow> handler \<Rightarrow> bool" where
  "resolvesTo s path method h =
     (case getOperation s h of
        None \<Rightarrow> False
      | Some m \<Rightarrow> generatePathFromFunction (functionName m) = path \<and>
                  determineHttpMethod (functionName m) = method)"

definition hasOperation :: "state \<Rightarrow> handler \<Rightarrow> bool" where
  "hasOperation s h = (getOperation s h \<noteq> None)"

text \<open>A dictionary of dictionaries: keys are distinct at both levels.\<close>

definition pathsInv :: "(string \<times> PathItemObject) list \<Rightarrow> bool" where
  "pathsInv ps \<longleftrightarrow>
     distinct (map fst ps) \<and> (\<forall>kv \<in> set ps. distinct (map fst (snd kv)))"

text \<open>Reading a decimal numeral back: the left inverse of \<open>digitsOf\<close>.\<close>

definition digitValue :: "char \<Rightarrow> nat" where
  "digitValue c = (case map_of (zip ''0123456789'' [0..<10]) c of Some d \<Rightarrow> d | None \<Rightarrow> 0)"

definition digitsValue :: "string \<Rightarrow> nat" where
  "digitsValue ds = foldl (\<lambda>a c. 10 * a + digitValue c) 0 ds"

text \<open>The six type names the schema mapper knows.\<close>

definition primitiveTypeNames :: "string list" where
  "primitiveTypeNames = [''string'', ''number'', ''integer'', ''boolean'', ''array'', ''object'']"

text \<open>The loop of \<open>collectResponses\<close> started from any accumulator.\<close>

definition foldResponses ::
  "(string \<times> ResponseObject) list \<Rightarrow> ApiResponseMetadata list \<Rightarrow> (string \<times> ResponseObject) list" where
  "foldResponses acc rs =
     foldl (\<lambda>acc responseMeta.
              AList.update (numberToString (status responseMeta))
                (responseFromMetadata responseMeta) acc)
           acc rs"

text \<open>The entry the assembler falls back to, and the metadata entries that build an equal one.\<close>

definition fallbackResponse :: ResponseObject where
  "fallbackResponse = \<lparr>r_description = ''Successful response'', r_content = None\<rparr>"

definition equalsFallback :: "ApiResponseMetadata \<Rightarrow> bool" where
  "equalsFallback r \<longleftrightarrow>
     response_description r = Some ''Successful response'' \<and>
     (case response_type r of None \<Rightarrow> True | Some t \<Rightarrow> \<not> truthyType t) \<and>
     response_content r = None"

subsection \<open>Concrete handlers and annotations used as test inputs\<close>

definition getUserHandler :: handler where
  "getUserHandler = \<lparr>fn_id = 0, fn_name = ''getUserHandler''\<rparr>"

definition createUserHandler :: handler where
  "createUserHandler = \<lparr>fn_id = 1, fn_name = ''createUserHandler''\<rparr>"

definition plainResponse :: "int \<Rightarrow> string \<Rightarrow> ApiResponseOptions" where
  "plainResponse st d =
     \<lparr>status = st, response_description = Some d, response_type = None,
      response_example = None, response_headers = None, response_content = None\<rparr>"

definition sampleProgram :: "call list" where
  "sampleProgram =
     [CallApiResponse (plainResponse 500 ''Server error'') getUserHandler None,
      CallApiResponse (plainResponse 201 ''Created'') createUserHandler None,
      CallResetParamOrder,
      CallApiResponse (plainResponse 200 ''Success'') getUserHandler None,
      CallClearMetadata createUserHandler,
      CallApiResponse (plainResponse 404 ''Not found'') getUserHandler None]"

definition dupFirst :: ApiResponseOptions where
  "dupFirst = plainResponse 200 ''First success response''"

definition dupSecond :: ApiResponseOptions where
  "dupSecond = plainResponse 200 ''Second success response''"

text \<open>Two responses for status 200 with a reset of the response counter between them.\<close>

definition resetProgram :: "call list" where
  "resetProgram =
     [CallApiResponse (plainResponse 201 ''Created'') createUserHandler None,
      CallApiResponse dupFirst getUserHandler None,
      CallResetResponseOrder,
      CallApiResponse dupSecond getUserHandler None]"

definition dupProgram :: "call list" where
  "dupProgram =
     [CallApiResponse dupFirst getUserHandler None,
      CallApiResponse dupSecond getUserHandler None]"

text \<open>The integration test's pair: one handler without decorators, one with an operation.\<close>

definition handlerWithoutDecorators :: handler where
  "handlerWithoutDecorators = \<lparr>fn_id = 2, fn_name = ''handlerWithoutDecorators''\<rparr>"

definition handlerWithMetadata :: handler where
  "handlerWithMetadata = \<lparr>fn_id = 3, fn_name = ''handlerWithMetadata''\<rparr>"

definition summaryOnly :: "string \<Rightarrow> ApiOperationOptions" where
  "summaryOnly t =
     \<lparr>summary = t, description = None, tags = None, operationId = None, deprecated = None\<rparr>"

definition mixedState :: state where
  "mixedState =
     ApiOperation (summaryOnly ''Handler with metadata'') handlerWithMetadata None None initialState"

definition userApiConfig :: GeneratorConfig where
  "userApiConfig =
     \<lparr>info = \<lparr>title = ''User API'', version = ''1.0.0'', info_description = None\<rparr>,
      servers = None, security = None, config_tags = None, externalDocs = None\<rparr>"

text \<open>Two distinct functions whose names both resolve to \<open>GET /get-user\<close>.\<close>

definition getUserV1 :: handler where
  "getUserV1 = \<lparr>fn_id = 4, fn_name = ''getUser''\<rparr>"

definition getUserV2 :: handler where
  "getUserV2 = \<lparr>fn_id = 5, fn_name = ''GetUserHandler''\<rparr>"

definition collidingState :: state where
  "collidingState =
     ApiOperation (summaryOnly ''Second'') getUserV2 None None
       (ApiOperation (summaryOnly ''First'') getUserV1 None None initialState)"

text \<open>
  The end-to-end scenario: \<open>getUserHandler\<close> gets an operation summary, one path
  parameter and two responses, on top of any store in which it has no metadata yet.
\<close>

definition annotateGetUser :: "state \<Rightarrow> state" where
  "annotateGetUser s =
     ApiResponse \<lparr>status = 404, response_description = None, response_type = None,
                  response_example = None, response_headers = None, response_content = None\<rparr>
       getUserHandler None
    (ApiResponse \<lparr>status = 200, response_description = None,
                  response_type = Some (TypeString ''object''),
                  response_example = None, response_headers = None, response_content = None\<rparr>
       getUserHandler None
    (ApiParam \<lparr>name = ''userId'', param_description = None, required = Some True,
               param_type = Some (TypeString ''string''), param_example = None,
               param_enum = None, param_deprecated = None\<rparr>
       getUserHandler None
    (ApiOperation (summaryOnly ''Get user by ID'') getUserHandler None None s)))"

definition getUserDocument :: "state \<Rightarrow> OpenAPISpec" where
  "getUserDocument s =
     generateOpenApiSpec userApiConfig (annotateGetUser (clearMetadata getUserHandler s))
       [getUserHandler]"

definition noResponsesMeta :: HandlerMetadata where
  "noResponsesMeta =
     \<lparr>operation = Some \<lparr>summary = ''Simple'', description = None, tags = None,
                          operationId = None, deprecated = None,
                          functionName = ''simpleHandler'', filePath = None\<rparr>,
      responses = [], params = []\<rparr>"

definition notFoundOnlyMeta :: HandlerMetadata where
  "notFoundOnlyMeta =
     noResponsesMeta\<lparr>responses := [responseMetadataOf (plainResponse 404 ''Not found'') 0]\<rparr>"

text \<open>The handler of the Getting Started guide: an operation and one described response 200 with an example.\<close>

definition helloHandler :: handler where
  "helloHandler = \<lparr>fn_id = 6, fn_name = ''helloHandler''\<rparr>"

definition gettingStartedState :: state where
  "gettingStartedState =
     ApiOperation
       \<lparr>summary = ''Hello World'', description = Some ''Returns a simple greeting'',
        tags = None, operationId = None, deprecated = None\<rparr>
       helloHandler None None
       (ApiResponse
          \<lparr>status = 200, response_description = Some ''Successful response'',
           response_type = None,
           response_example = Some (JObj [(''message'', JStr ''Hello, World!'')]),
           response_headers = None, response_content = None\<rparr>
          helloHandler None initialState)"

section \<open>Inference heuristics\<close>

lemma startsWith_take: "startsWith s p \<longleftrightarrow> take (length p) s = p"
  by (induction s p rule: startsWith.induct) auto

lemma startsWith_prefix: "startsWith s p \<longleftrightarrow> prefix p s"
  by (induction s p rule: startsWith.induct) auto

lemma removeHandlerSuffix_spec: "removeHandlerSuffix s = stripTrailingHandler s"
  by (simp add: removeHandlerSuffix_def stripTrailingHandler_def startsWith_prefix suffix_to_prefix
        eval_nat_numeral)

lemma dashBeforeUpper_concat:
  "dashBeforeUpper s = concat (map (\<lambda>c. if isUpperAZ c then [CHR ''-'', c] else [c]) s)"
  by (induction s) auto

lemma map_nth_fun: "map (\<lambda>i. g (xs ! i)) [0..<length xs] = map g xs"
proof -
  have "map (\<lambda>i. g (xs ! i)) [0..<length xs] = map g (map ((!) xs) [0..<length xs])"
    by (simp add: o_def)
  then show ?thesis by (simp only: map_nth)
qed

lemma separateInternalCapitals_Cons:
  "separateInternalCapitals (c # cs) = c # dashBeforeUpper cs"
  unfolding separateInternalCapitals_def dashBeforeUpper_concat
  using map_nth_fun [of "\<lambda>c. if isUpperAZ c then [CHR ''-'', c] else [c]" cs]
  by (simp add: map_upt_Suc del: upt_Suc cong: if_cong)

lemma toLowerChar_upper_not_dash: "isUpperAZ c \<Longrightarrow> toLowerChar c \<noteq> CHR ''-''"
  by (auto simp: isUpperAZ_def toLowerChar_def upperAZ_def lowerAZ_def)

lemma toLowerChar_other: "\<not> isUpperAZ c \<Longrightarrow> toLowerChar c = c"
  by (auto simp: isUpperAZ_def toLowerChar_def upperAZ_def lowerAZ_def split: option.splits)

lemma toLowerChar_dash: "toLowerChar CHR ''-'' = CHR ''-''"
  by (simp add: toLowerChar_def upperAZ_def lowerAZ_def)

text \<open>
  The dash the source puts before a leading capital is the one its last
  \<^verbatim>\<open>replace\<close> removes, so only internal capitals keep their separator.
\<close>

lemma path_core:
  "removeLeadingDash (toLowerCase (dashBeforeUpper s)) =
   stripLeadingSeparator (toLowerCase (separateInternalCapitals s))"
proof (cases s)
  case Nil
  then show ?thesis
    by (simp add: toLowerCase_def stripLeadingSeparator_def separateInternalCapitals_def)
next
  case (Cons c cs)
  show ?thesis
  proof (cases "isUpperAZ c")
    case True
    then show ?thesis using Cons toLowerChar_upper_not_dash [of c]
      by (simp add: toLowerChar_dash toLowerCase_def stripLeadingSeparator_def
          separateInternalCapitals_Cons)
  next
    case False
    then show ?thesis using Cons toLowerChar_other [of c]
      by (simp add: toLowerCase_def stripLeadingSeparator_def separateInternalCapitals_Cons)
  qed
qed

lemma path_getUserHandler: "generatePathFromFunction ''getUserHandler'' = ''/get-user''"
  by (simp add: generatePathFromFunction_def removeHandlerSuffix_def toLowerCase_def toLowerChar_def
      isUpperAZ_def upperAZ_def lowerAZ_def)

lemma method_getUserHandler: "determineHttpMethod ''getUserHandler'' = ''get''"
  by (simp add: determineHttpMethod_def toLowerCase_def toLowerChar_def upperAZ_def lowerAZ_def)

text \<open>
  Claim C3. Path inference depends on the handler's name alone and, for every name, is
  the composition the specification describes: strip a trailing \<open>Handler\<close>, put a
  separator before each internal capital letter, lower-case, strip a leading separator,
  prefix \<open>/\<close>. It sends \<open>getUserHandler\<close> to \<open>/get-user\<close>.
\<close>

theorem generatePathFromFunction_is_inferPath:
  "generatePathFromFunction handlerName = inferPath handlerName \<and>
   generatePathFromFunction ''getUserHandler'' = ''/get-user''"
proof
  show "generatePathFromFunction handlerName = inferPath handlerName"
    by (simp add: generatePathFromFunction_def inferPath_def path_core removeHandlerSuffix_spec)
  show "generatePathFromFunction ''getUserHandler'' = ''/get-user''"
    by (simp add: generatePathFromFunction_def removeHandlerSuffix_def toLowerCase_def
        toLowerChar_def isUpperAZ_def upperAZ_def lowerAZ_def)
qed

theorem generatePathFromFunction_is_inferPath_witness:
  "generatePathFromFunction ''ListItemsHandler'' = ''/list-items'' \<and>
   inferPath ''ListItemsHandler'' = ''/list-items''"
proof -
  have "generatePathFromFunction ''ListItemsHandler'' = ''/list-items''"
    by (simp add: generatePathFromFunction_def removeHandlerSuffix_def toLowerCase_def
        toLowerChar_def isUpperAZ_def upperAZ_def lowerAZ_def)
  then show ?thesis
    using generatePathFromFunction_is_inferPath [of "''ListItemsHandler''"] by simp
qed

lemma includesStr_index:
  "includesStr s sub \<longleftrightarrow> (\<exists>i\<le>length s. take (length sub) (drop i s) = sub)"
proof (induction s)
  case Nil
  then show ?case by auto
next
  case (Cons c cs)
  have "(\<exists>i\<le>length (c # cs). take (length sub) (drop i (c # cs)) = sub) \<longleftrightarrow>
        take (length sub) (c # cs) = sub \<or> (\<exists>i\<le>length cs. take (length sub) (drop i cs) = sub)"
    (is "?L \<longleftrightarrow> ?A \<or> ?B")
  proof
    assume ?L
    then obtain i where i: "i \<le> length (c # cs)" "take (length sub) (drop i (c # cs)) = sub"
      by blast
    show "?A \<or> ?B"
    proof (cases i)
      case 0
      with i show ?thesis by simp
    next
      case (Suc j)
      with i have "j \<le> length cs" "take (length sub) (drop j cs) = sub" by simp_all
      then show ?thesis by blast
    qed
  next
    assume "?A \<or> ?B"
    then show ?L
    proof
      assume ?A
      then have "take (length sub) (drop 0 (c # cs)) = sub" by simp
      then show ?L by blast
    next
      assume ?B
      then obtain j where "j \<le> length cs" "take (length sub) (drop j cs) = sub" by blast
      then have "Suc j \<le> length (c # cs)" "take (length sub) (drop (Suc j) (c # cs)) = sub"
        by simp_all
      then show ?L by blast
    qed
  qed
  with Cons show ?case by (simp only: includesStr.simps startsWith_take)
qed

lemma includes_lower:
  assumes "toLowerCase kw = kw"
  shows "includesStr (toLowerCase handlerName) kw \<longleftrightarrow> containsIgnoringCase handlerName kw"
proof -
  have "\<And>i. take (length kw) (drop i (toLowerCase handlerName)) =
             toLowerCase (take (length kw) (drop i handlerName))"
    by (simp add: toLowerCase_def take_map drop_map)
  moreover have "set [0..<Suc (length handlerName)] = {i. i \<le> length handlerName}"
    by auto
  ultimately show ?thesis
    unfolding containsIgnoringCase_def list_ex_iff includesStr_index
    using assms by (simp add: toLowerCase_def del: upt_Suc)
qed

lemma keywords_lower:
  "toLowerCase ''get'' = ''get''" "toLowerCase ''list'' = ''list''" "toLowerCase ''find'' = ''find''"
  "toLowerCase ''post'' = ''post''" "toLowerCase ''create'' = ''create''"
  "toLowerCase ''put'' = ''put''" "toLowerCase ''update'' = ''update''"
  "toLowerCase ''delete'' = ''delete''" "toLowerCase ''remove'' = ''remove''"
  "toLowerCase ''patch'' = ''patch''"
  by (simp_all add: toLowerCase_def toLowerChar_def upperAZ_def lowerAZ_def)

text \<open>
  Claim C4. For every handler name the inferred method is the method of the first rule
  of the precedence table (get/list/find, post/create, put/update, delete/remove, patch)
  one of whose keywords occurs in the name with letter case ignored, and \<open>get\<close> when
  no rule matches.
\<close>

theorem determineHttpMethod_is_inferMethod:
  "determineHttpMethod handlerName = inferMethod handlerName"
  by (simp add: determineHttpMethod_def inferMethod_def methodRules_def includes_lower
      keywords_lower)

theorem determineHttpMethod_is_inferMethod_witness:
  "determineHttpMethod ''UpdatePostHandler'' = ''post'' \<and>
   inferMethod ''UpdatePostHandler'' = ''post'' \<and>
   inferMethod ''removePatch'' = ''delete'' \<and>
   inferMethod ''handler'' = ''get''"
proof -
  have "determineHttpMethod ''UpdatePostHandler'' = ''post''"
       "determineHttpMethod ''removePatch'' = ''delete''"
       "determineHttpMethod ''handler'' = ''get''"
    by (simp_all add: determineHttpMethod_def toLowerCase_def toLowerChar_def upperAZ_def
        lowerAZ_def)
  then show ?thesis
    using determineHttpMethod_is_inferMethod [of "''UpdatePostHandler''"]
      determineHttpMethod_is_inferMethod [of "''removePatch''"]
      determineHttpMethod_is_inferMethod [of "''handler''"]
    by simp
qed

section \<open>Metadata store\<close>

lemma sort_key_snoc_max:
  assumes "sorted_wrt (<) (map f xs)" and "\<forall>x \<in> set xs. f x < f m"
  shows "sort_key f (xs @ [m]) = xs @ [m]"
proof -
  have "sorted_wrt (<) (map f (xs @ [m]))"
    using assms by (simp add: sorted_wrt_append)
  then have "sorted (map f (xs @ [m]))"
    by (rule strict_sorted_imp_sorted)
  then show ?thesis by (rule sort_key_id_if_sorted)
qed

lemma getResponses_addResponse:
  "getResponses (addResponse t m s) h =
     (if h = t then sort_key order (getResponses s t @ [m]) else getResponses s h)"
  by (simp add: addResponse_def getResponses_def Let_def)

text \<open>After every \<open>addResponse\<close> the stored collection is in sequence order.\<close>

lemma addResponse_sorted: "sorted (map order (getResponses (addResponse h m s) h))"
  by (simp add: getResponses_addResponse del: sort_key_simps)

lemma ApiResponse_addResponse:
  "ApiResponse opts t d s =
   addResponse (targetFunction t d) (responseMetadataOf opts (responseOrder s))
     (s\<lparr>responseOrder := responseOrder s + 1\<rparr>)"
  by (simp add: ApiResponse_def responseMetadataOf_def Let_def)

lemma getResponses_counter [simp]:
  "getResponses (s\<lparr>responseOrder := n\<rparr>) h = getResponses s h"
  by (simp add: getResponses_def)

lemma getResponses_ApiResponse_other:
  "targetFunction t d \<noteq> h \<Longrightarrow> getResponses (ApiResponse opts t d s) h = getResponses s h"
  by (simp add: ApiResponse_addResponse getResponses_addResponse)

lemma responseOrder_ApiResponse: "responseOrder (ApiResponse opts t d s) = responseOrder s + 1"
  by (simp add: ApiResponse_def Let_def addResponse_def)

lemma getResponses_ApiResponse_same:
  assumes "respInv s h" and "targetFunction t d = h"
  shows "getResponses (ApiResponse opts t d s) h =
         getResponses s h @ [responseMetadataOf opts (responseOrder s)]"
proof -
  have "getResponses (ApiResponse opts t d s) h =
        sort_key order (getResponses s h @ [responseMetadataOf opts (responseOrder s)])"
    using assms(2) by (simp add: ApiResponse_addResponse getResponses_addResponse)
  also have "\<dots> = getResponses s h @ [responseMetadataOf opts (responseOrder s)]"
    using assms(1) by (intro sort_key_snoc_max) (simp_all add: respInv_def responseMetadataOf_def)
  finally show ?thesis .
qed

lemma truncate_responseMetadataOf:
  "ApiResponseOptions.truncate (responseMetadataOf opts n) = opts"
  by (simp add: responseMetadataOf_def ApiResponseOptions.truncate_def)

lemma exec_step:
  assumes "respInv s h" and "c \<noteq> CallResetResponseOrder" and "c \<noteq> CallClearMetadata h"
  shows "respInv (exec c s) h \<and>
         map ApiResponseOptions.truncate (getResponses (exec c s) h) =
         map ApiResponseOptions.truncate (getResponses s h) @ responsesAppliedTo h [c]"
proof (cases c)
  case (CallApiOperation opts t k d)
  then show ?thesis using assms(1)
    by (simp add: ApiOperation_def Let_def setOperation_def respInv_def getResponses_def)
next
  case (CallApiParam opts t d)
  then show ?thesis using assms(1)
    by (simp add: ApiParam_def Let_def addParam_def respInv_def getResponses_def)
next
  case (CallApiResponse opts t d)
  show ?thesis
  proof (cases "targetFunction t d = h")
    case True
    have g: "getResponses (exec c s) h =
             getResponses s h @ [responseMetadataOf opts (responseOrder s)]"
      using CallApiResponse getResponses_ApiResponse_same [OF assms(1) True] by simp
    have o: "responseOrder (exec c s) = responseOrder s + 1"
      using CallApiResponse by (simp add: responseOrder_ApiResponse)
    have "respInv (exec c s) h"
      using assms(1) unfolding respInv_def g o
      by (auto simp add: sorted_wrt_append responseMetadataOf_def)
    then show ?thesis using CallApiResponse True g
      by (simp add: truncate_responseMetadataOf)
  next
    case False
    then show ?thesis using CallApiResponse assms(1)
      by (auto simp add: respInv_def getResponses_ApiResponse_other responseOrder_ApiResponse)
  qed
next
  case CallResetResponseOrder
  then show ?thesis using assms by simp
next
  case CallResetParamOrder
  then show ?thesis using assms(1)
    by (simp add: resetParamOrder_def respInv_def getResponses_def)
next
  case (CallClearMetadata t)
  then have "t \<noteq> h" using assms(3) by simp
  then show ?thesis using CallClearMetadata assms(1)
    by (simp add: clearMetadata_def respInv_def getResponses_def)
qed

lemma responsesAppliedTo_append:
  "responsesAppliedTo h (cs @ ds) = responsesAppliedTo h cs @ responsesAppliedTo h ds"
  by (induction h cs rule: responsesAppliedTo.induct) simp_all

lemma run_inv:
  assumes "respInv s h" and "CallResetResponseOrder \<notin> set cs" and "CallClearMetadata h \<notin> set cs"
  shows "respInv (run cs s) h \<and>
         map ApiResponseOptions.truncate (getResponses (run cs s) h) =
         map ApiResponseOptions.truncate (getResponses s h) @ responsesAppliedTo h cs"
  using assms
proof (induction cs arbitrary: s)
  case Nil
  then show ?case by (simp add: run_def)
next
  case (Cons c cs)
  from Cons.prems have c: "c \<noteq> CallResetResponseOrder" "c \<noteq> CallClearMetadata h" by auto
  note st = exec_step [OF Cons.prems(1) c]
  from Cons.prems have "CallResetResponseOrder \<notin> set cs" "CallClearMetadata h \<notin> set cs" by auto
  with Cons.IH [of "exec c s"] st
  have "respInv (run cs (exec c s)) h \<and>
        map ApiResponseOptions.truncate (getResponses (run cs (exec c s)) h) =
        map ApiResponseOptions.truncate (getResponses (exec c s) h) @ responsesAppliedTo h cs"
    by blast
  moreover have "responsesAppliedTo h (c # cs) = responsesAppliedTo h [c] @ responsesAppliedTo h cs"
    using responsesAppliedTo_append [of h "[c]" cs] by simp
  ultimately show ?case using st by (simp add: run_def)
qed

text \<open>
  Claim C5. Take a handler with no response metadata and any program of decorator
  applications that neither resets the response counter nor clears that handler.
  Reading the handler's responses back gives exactly the response annotations the
  program applied to it, in application order, whatever their status codes, and their
  sequence indices increase strictly. A read is a function of the store, so every read
  returns this list.
\<close>

theorem responses_read_back_in_application_order:
  assumes "getResponses s h = []" and "CallResetResponseOrder \<notin> set cs"
    and "CallClearMetadata h \<notin> set cs"
  shows "map ApiResponseOptions.truncate (getApiResponses (run cs s) h) = responsesAppliedTo h cs \<and>
         sorted_wrt (<) (map order (getApiResponses (run cs s) h))"
proof -
  have "respInv s h" using assms(1) by (simp add: respInv_def)
  from run_inv [OF this assms(2,3)] assms(1) show ?thesis
    by (simp add: getApiResponses_def respInv_def)
qed

theorem responses_read_back_in_application_order_witness:
  "getResponses initialState getUserHandler = [] \<and>
   CallResetResponseOrder \<notin> set sampleProgram \<and>
   CallClearMetadata getUserHandler \<notin> set sampleProgram \<and>
   map ApiResponseOptions.truncate (getApiResponses (run sampleProgram initialState) getUserHandler) =
     [plainResponse 500 ''Server error'', plainResponse 200 ''Success'',
      plainResponse 404 ''Not found''] \<and>
   sorted_wrt (<) (map order (getApiResponses (run sampleProgram initialState) getUserHandler))"
proof -
  have a: "getResponses initialState getUserHandler = []"
    by (simp add: getResponses_def initialState_def)
  have b: "CallResetResponseOrder \<notin> set sampleProgram"
    by (simp add: sampleProgram_def)
  have c: "CallClearMetadata getUserHandler \<notin> set sampleProgram"
    by (simp add: sampleProgram_def getUserHandler_def createUserHandler_def)
  have d: "responsesAppliedTo getUserHandler sampleProgram =
           [plainResponse 500 ''Server error'', plainResponse 200 ''Success'',
            plainResponse 404 ''Not found'']"
    by (simp add: sampleProgram_def targetFunction_def getUserHandler_def createUserHandler_def)
  from responses_read_back_in_application_order [OF a b c] a b c d show ?thesis by simp
qed

lemma responseOrder_addResponse: "responseOrder (addResponse t m s) = responseOrder s"
  by (simp add: addResponse_def Let_def)

lemma status_truncate: "status (ApiResponseOptions.truncate r) = status r"
  by (simp add: ApiResponseOptions.truncate_def)

lemma run_resetProgram:
  "getResponses (run resetProgram initialState) getUserHandler =
     [responseMetadataOf dupSecond 0, responseMetadataOf dupFirst 1]"
  by (simp add: run_def resetProgram_def ApiResponse_addResponse getResponses_addResponse
      resetResponseOrder_def targetFunction_def getUserHandler_def createUserHandler_def
      initialState_def responseMetadataOf_def responseOrder_addResponse)
     (simp add: getResponses_def)

text \<open>
  Claim C6, as stated, fails. Apply a response to another handler (the counter becomes
  1), then \<open>ApiResponse\<close> for status 200 to \<open>getUserHandler\<close> (sequence index 1), reset
  the response counter, and apply a second status-200 response to \<open>getUserHandler\<close>
  (sequence index 0). Both entries are kept, but the re-sort puts the second one first, and
  the point lookup returns the later-added entry. The same happens at store level when
  \<open>addResponse\<close> is given a first entry with \<open>order = 1\<close> and then one with
  \<open>order = 0\<close>.
\<close>

theorem duplicate_status_lookup_returns_later_added:
  "length (getApiResponses (run resetProgram initialState) getUserHandler) = 2 \<and>
   getApiResponse (run resetProgram initialState) getUserHandler 200 =
     Some (responseMetadataOf dupSecond 0) \<and>
   getApiResponse (run resetProgram initialState) getUserHandler 200 \<noteq>
     Some (responseMetadataOf dupFirst 1)"
  by (simp add: getApiResponses_def getApiResponse_def run_resetProgram)
     (simp add: responseMetadataOf_def dupSecond_def dupFirst_def plainResponse_def)

text \<open>
  Claim C6, amended. For a handler with no response metadata, adding two entries with
  the same status code keeps both, ordered by sequence index (the first-added first on a
  tie), and the point lookup by that status returns the entry with the smaller sequence
  index, the first-added one on a tie. When the two entries come from \<open>ApiResponse\<close>
  applications in a program that does not reset the response counter (and does not clear
  the handler), the collection has length 2 and the lookup returns the first-applied one.
\<close>

theorem duplicate_status_lookup_returns_lowest_order:
  assumes "getResponses s h = []"
  shows "(status r1 = status r2 \<longrightarrow>
            getApiResponses (addResponse h r2 (addResponse h r1 s)) h =
              (if order r2 < order r1 then [r2, r1] else [r1, r2]) \<and>
            getApiResponse (addResponse h r2 (addResponse h r1 s)) h (status r1) =
              Some (if order r2 < order r1 then r2 else r1)) \<and>
         (CallResetResponseOrder \<notin> set cs \<and> CallClearMetadata h \<notin> set cs \<and>
          responsesAppliedTo h cs = [o1, o2] \<and> status o1 = status o2 \<longrightarrow>
            length (getApiResponses (run cs s) h) = 2 \<and>
            map_option ApiResponseOptions.truncate (getApiResponse (run cs s) h (status o1)) =
              Some o1)"
proof (intro conjI impI)
  assume st: "status r1 = status r2"
  have g: "getResponses (addResponse h r2 (addResponse h r1 s)) h =
           (if order r2 < order r1 then [r2, r1] else [r1, r2])"
    using assms by (auto simp add: getResponses_addResponse)
  then show "getApiResponses (addResponse h r2 (addResponse h r1 s)) h =
              (if order r2 < order r1 then [r2, r1] else [r1, r2])"
    by (simp add: getApiResponses_def)
  show "getApiResponse (addResponse h r2 (addResponse h r1 s)) h (status r1) =
              Some (if order r2 < order r1 then r2 else r1)"
    using st by (simp add: getApiResponse_def g)
next
  assume a: "CallResetResponseOrder \<notin> set cs \<and> CallClearMetadata h \<notin> set cs \<and>
          responsesAppliedTo h cs = [o1, o2] \<and> status o1 = status o2"
  have "respInv s h" using assms by (simp add: respInv_def)
  with a run_inv [of s h cs] assms
  have m: "map ApiResponseOptions.truncate (getResponses (run cs s) h) = [o1, o2]"
    by simp
  then obtain x1 x2 where x: "getResponses (run cs s) h = [x1, x2]"
    "ApiResponseOptions.truncate x1 = o1" "ApiResponseOptions.truncate x2 = o2"
    by (auto simp add: map_eq_Cons_conv)
  from x(2) have "status x1 = status o1" using status_truncate [of x1] by simp
  with x show "length (getApiResponses (run cs s) h) = 2"
    and "map_option ApiResponseOptions.truncate (getApiResponse (run cs s) h (status o1)) =
           Some o1"
    by (simp_all add: getApiResponses_def getApiResponse_def)
qed

theorem duplicate_status_lookup_returns_lowest_order_witness:
  "getResponses initialState getUserHandler = [] \<and>
   status (responseMetadataOf dupFirst 1) = status (responseMetadataOf dupSecond 0) \<and>
   getApiResponse
     (addResponse getUserHandler (responseMetadataOf dupSecond 0)
        (addResponse getUserHandler (responseMetadataOf dupFirst 1) initialState))
     getUserHandler 200 = Some (responseMetadataOf dupSecond 0) \<and>
   CallResetResponseOrder \<notin> set dupProgram \<and>
   CallClearMetadata getUserHandler \<notin> set dupProgram \<and>
   responsesAppliedTo getUserHandler dupProgram = [dupFirst, dupSecond] \<and>
   status dupFirst = status dupSecond \<and>
   length (getApiResponses (run dupProgram initialState) getUserHandler) = 2 \<and>
   map_option ApiResponseOptions.truncate
     (getApiResponse (run dupProgram initialState) getUserHandler 200) = Some dupFirst"
proof -
  have a: "getResponses initialState getUserHandler = []"
    by (simp add: getResponses_def initialState_def)
  have b: "status (responseMetadataOf dupFirst 1) = status (responseMetadataOf dupSecond 0)"
    "status (responseMetadataOf dupFirst 1) = 200"
    "order (responseMetadataOf dupSecond 0) < order (responseMetadataOf dupFirst 1)"
    by (simp_all add: responseMetadataOf_def dupFirst_def dupSecond_def plainResponse_def)
  have c: "CallResetResponseOrder \<notin> set dupProgram"
    "CallClearMetadata getUserHandler \<notin> set dupProgram"
    "responsesAppliedTo getUserHandler dupProgram = [dupFirst, dupSecond]"
    by (simp_all add: dupProgram_def targetFunction_def)
  have d: "status dupFirst = status dupSecond" "status dupFirst = 200"
    by (simp_all add: dupFirst_def dupSecond_def plainResponse_def)
  from duplicate_status_lookup_returns_lowest_order [OF a,
      of "responseMetadataOf dupFirst 1" "responseMetadataOf dupSecond 0"
         dupProgram dupFirst dupSecond]
    a b c d
  show ?thesis by simp
qed

section \<open>Paths of the assembled document\<close>

lemma operation_getHandlerMetadata [simp]:
  "operation (getHandlerMetadata s h) = getOperation s h"
  by (simp add: getHandlerMetadata_def)

lemma addHandlerPath_None:
  "getOperation s h = None \<Longrightarrow> addHandlerPath s acc h = acc"
  by (simp add: addHandlerPath_def Let_def)

lemma addHandlerPath_Some:
  "getOperation s h = Some m \<Longrightarrow>
   addHandlerPath s acc h =
     AList.update (generatePathFromFunction (functionName m))
       (AList.update (determineHttpMethod (functionName m))
          (generateOperation (getHandlerMetadata s h))
          (case map_of acc (generatePathFromFunction (functionName m)) of
             None \<Rightarrow> [] | Some item \<Rightarrow> item))
       acc"
  by (simp add: addHandlerPath_def Let_def update_conv' split: option.splits)

lemma set_update_subset: "set (AList.update k v al) \<subseteq> insert (k, v) (set al)"
  by (induction al) auto

lemma pathsInv_addHandlerPath:
  assumes "pathsInv acc"
  shows "pathsInv (addHandlerPath s acc h)"
proof (cases "getOperation s h")
  case None
  then show ?thesis using assms by (simp add: addHandlerPath_None)
next
  case (Some m)
  let ?p = "generatePathFromFunction (functionName m)"
  let ?item = "case map_of acc ?p of None \<Rightarrow> [] | Some item \<Rightarrow> item"
  have "distinct (map fst ?item)"
  proof (cases "map_of acc ?p")
    case None
    then show ?thesis by simp
  next
    case (Some item)
    then have "(?p, item) \<in> set acc" by (rule map_of_SomeD)
    with assms Some show ?thesis by (force simp add: pathsInv_def)
  qed
  then have d: "distinct (map fst (AList.update (determineHttpMethod (functionName m))
                  (generateOperation (getHandlerMetadata s h)) ?item))"
    by (rule distinct_update)
  show ?thesis
    unfolding addHandlerPath_Some [OF Some] pathsInv_def
  proof (intro conjI ballI)
    show "distinct (map fst (AList.update ?p (AList.update (determineHttpMethod (functionName m))
                  (generateOperation (getHandlerMetadata s h)) ?item) acc))"
      using assms by (simp add: pathsInv_def distinct_update)
  next
    fix kv
    assume "kv \<in> set (AList.update ?p (AList.update (determineHttpMethod (functionName m))
                  (generateOperation (getHandlerMetadata s h)) ?item) acc)"
    then have "snd kv = AList.update (determineHttpMethod (functionName m))
                  (generateOperation (getHandlerMetadata s h)) ?item \<or> kv \<in> set acc"
      using set_update_subset [of ?p _ acc] by force
    then show "distinct (map fst (snd kv))"
      using d assms by (auto simp add: pathsInv_def)
  qed
qed

lemma pathsLookup_addHandlerPath:
  "pathsLookup (addHandlerPath s acc h) p m =
     (if resolvesTo s p m h then Some (generateOperation (getHandlerMetadata s h))
      else pathsLookup acc p m)"
proof (cases "getOperation s h")
  case None
  then show ?thesis by (simp add: addHandlerPath_None resolvesTo_def)
next
  case (Some md)
  show ?thesis
    unfolding addHandlerPath_Some [OF Some]
    using Some
    by (auto simp add: pathsLookup_def resolvesTo_def update_conv' split: option.splits)
qed

lemma pathsInv_foldl: "pathsInv acc \<Longrightarrow> pathsInv (foldl (addHandlerPath s) acc hs)"
  by (induction hs arbitrary: acc) (simp_all add: pathsInv_addHandlerPath)

lemma pathsLookup_foldl:
  "pathsLookup (foldl (addHandlerPath s) acc hs) p m =
     (if filter (resolvesTo s p m) hs = [] then pathsLookup acc p m
      else Some (generateOperation (getHandlerMetadata s (last (filter (resolvesTo s p m) hs)))))"
proof (induction hs rule: rev_induct)
  case Nil
  then show ?case by simp
next
  case (snoc h hs)
  show ?case
  proof (cases "resolvesTo s p m h")
    case True
    then show ?thesis
      by (simp add: pathsLookup_addHandlerPath)
  next
    case False
    then show ?thesis using snoc
      by (simp add: pathsLookup_addHandlerPath)
  qed
qed

lemma entriesAt_distinct:
  "distinct (map fst al) \<Longrightarrow>
   entriesAt al k = (case map_of al k of None \<Rightarrow> [] | Some v \<Rightarrow> [v])"
proof (induction al)
  case Nil
  then show ?case by (simp add: entriesAt_def)
next
  case (Cons kv al)
  show ?case
  proof (cases "fst kv = k")
    case True
    with Cons.prems have "k \<notin> fst ` set al" by auto
    then have "filter (\<lambda>kv. fst kv = k) al = []"
      by (auto simp add: filter_empty_conv)
    with True show ?thesis by (simp add: entriesAt_def)
  next
    case False
    with Cons show ?thesis by (simp add: entriesAt_def)
  qed
qed

lemma operations_of_lookup:
  assumes "pathsInv ps"
  shows "concat (map (\<lambda>item. entriesAt item m) (entriesAt ps p)) =
         (case pathsLookup ps p m of None \<Rightarrow> [] | Some op \<Rightarrow> [op])"
proof (cases "map_of ps p")
  case None
  then show ?thesis using assms by (simp add: entriesAt_distinct pathsInv_def pathsLookup_def)
next
  case (Some item)
  then have "(p, item) \<in> set ps" by (rule map_of_SomeD)
  with assms have "distinct (map fst item)" by (force simp add: pathsInv_def)
  then show ?thesis using assms Some
    by (simp add: entriesAt_distinct pathsInv_def pathsLookup_def)
qed

lemma paths_generate [simp]: "paths (generateOpenApiSpec config s hs) = generatePaths s hs"
  by (simp add: generateOpenApiSpec_def generateSpec_def)

lemma foldl_skip:
  "foldl (addHandlerPath s) acc (filter (hasOperation s) hs) = foldl (addHandlerPath s) acc hs"
  by (induction hs arbitrary: acc) (auto simp add: hasOperation_def addHandlerPath_None)

lemma keys_addHandlerPath:
  "fst ` set (addHandlerPath s acc h) =
     fst ` set acc \<union> (case getOperation s h of None \<Rightarrow> {}
                          | Some m \<Rightarrow> {generatePathFromFunction (functionName m)})"
proof (cases "getOperation s h")
  case None
  then show ?thesis by (simp add: addHandlerPath_None)
next
  case (Some m)
  show ?thesis unfolding addHandlerPath_Some [OF Some] using Some by (simp add: dom_update)
qed

lemma keys_foldl:
  "fst ` set (foldl (addHandlerPath s) acc hs) =
     fst ` set acc \<union>
     {generatePathFromFunction (functionName m) | h m. h \<in> set hs \<and> getOperation s h = Some m}"
proof (induction hs arbitrary: acc)
  case Nil
  then show ?case by simp
next
  case (Cons h hs)
  show ?case
    unfolding foldl_Cons Cons.IH keys_addHandlerPath
    by (cases "getOperation s h") auto
qed

text \<open>
  Claim C2. The paths of the assembled document are those of the document assembled
  from the handlers that have operation metadata alone: a handler without it is skipped
  and leaves no path item and no operation. The keys of \<open>paths\<close> are exactly the paths
  inferred for the handlers of the list that do have operation metadata.
\<close>

theorem handlers_without_operation_are_skipped:
  "paths (generateOpenApiSpec config s handlers) =
     paths (generateOpenApiSpec config s (filter (hasOperation s) handlers)) \<and>
   fst ` set (paths (generateOpenApiSpec config s handlers)) =
     {generatePathFromFunction (functionName m) | h m.
        h \<in> set handlers \<and> getOperation s h = Some m}"
  by (simp add: generatePaths_def foldl_skip keys_foldl)

theorem handlers_without_operation_are_skipped_witness:
  "filter (hasOperation mixedState) [handlerWithoutDecorators, handlerWithMetadata] =
     [handlerWithMetadata] \<and>
   paths (generateOpenApiSpec userApiConfig mixedState
            [handlerWithoutDecorators, handlerWithMetadata]) =
     paths (generateOpenApiSpec userApiConfig mixedState [handlerWithMetadata]) \<and>
   map fst (paths (generateOpenApiSpec userApiConfig mixedState [handlerWithMetadata])) =
     [''/handler-with-metadata'']"
proof -
  have f: "filter (hasOperation mixedState) [handlerWithoutDecorators, handlerWithMetadata] =
           [handlerWithMetadata]"
    by (simp add: hasOperation_def getOperation_def mixedState_def ApiOperation_def
        setOperation_def targetFunction_def initialState_def handlerWithMetadata_def
        handlerWithoutDecorators_def Let_def)
  have m: "getOperation mixedState handlerWithMetadata =
           Some \<lparr>summary = ''Handler with metadata'', description = None, tags = None,
                 operationId = None, deprecated = None,
                 functionName = ''handlerWithMetadata'', filePath = None\<rparr>"
    by (simp add: getOperation_def mixedState_def ApiOperation_def setOperation_def
        targetFunction_def initialState_def handlerWithMetadata_def summaryOnly_def Let_def)
  have p: "generatePathFromFunction ''handlerWithMetadata'' = ''/handler-with-metadata''"
    by (simp add: generatePathFromFunction_def removeHandlerSuffix_def toLowerCase_def
        toLowerChar_def isUpperAZ_def upperAZ_def lowerAZ_def)
  have k: "map fst (paths (generateOpenApiSpec userApiConfig mixedState [handlerWithMetadata])) =
           [''/handler-with-metadata'']"
    by (simp add: generatePaths_def addHandlerPath_Some [OF m] p)
  from handlers_without_operation_are_skipped
         [of userApiConfig mixedState "[handlerWithoutDecorators, handlerWithMetadata]"] f k
  show ?thesis by simp
qed

text \<open>
  Claim C9. For every path and method, the document holds under
  \<open>paths[path][method]\<close> exactly one operation when some handler of the list resolves
  to that pair, and it is the operation built from the last such handler in list order;
  it holds none otherwise. The assembler has no failure value: a collision is not
  reported.
\<close>

theorem colliding_handlers_last_wins:
  "lookupOperation (generateOpenApiSpec config s handlers) path method =
     (if filter (resolvesTo s path method) handlers = [] then None
      else Some (generateOperation
                   (getHandlerMetadata s (last (filter (resolvesTo s path method) handlers))))) \<and>
   operationsAt (generateOpenApiSpec config s handlers) path method =
     (if filter (resolvesTo s path method) handlers = [] then []
      else [generateOperation
              (getHandlerMetadata s (last (filter (resolvesTo s path method) handlers)))])"
proof -
  have inv: "pathsInv (generatePaths s handlers)"
    unfolding generatePaths_def by (rule pathsInv_foldl) (simp add: pathsInv_def)
  have l: "pathsLookup (generatePaths s handlers) path method =
     (if filter (resolvesTo s path method) handlers = [] then None
      else Some (generateOperation
                   (getHandlerMetadata s (last (filter (resolvesTo s path method) handlers)))))"
    unfolding generatePaths_def pathsLookup_foldl by (simp add: pathsLookup_def)
  show ?thesis
    unfolding lookupOperation_def operationsAt_def paths_generate
    using l operations_of_lookup [OF inv, of "method" "path"]
    by simp
qed

lemma o_summary_generateOperation:
  "o_summary (generateOperation md) = map_option summary (operation md)"
  by (simp add: generateOperation_def Let_def split: option.splits)

lemma path_getUser_names:
  "generatePathFromFunction ''getUser'' = ''/get-user''"
  "generatePathFromFunction ''GetUserHandler'' = ''/get-user''"
  by (simp_all add: generatePathFromFunction_def removeHandlerSuffix_def toLowerCase_def
      toLowerChar_def isUpperAZ_def upperAZ_def lowerAZ_def)

lemma method_getUser_names:
  "determineHttpMethod ''getUser'' = ''get''"
  "determineHttpMethod ''GetUserHandler'' = ''get''"
  by (simp_all add: determineHttpMethod_def toLowerCase_def toLowerChar_def upperAZ_def
      lowerAZ_def)

lemma colliding_operations:
  "getOperation collidingState getUserV1 =
     Some \<lparr>summary = ''First'', description = None, tags = None, operationId = None,
           deprecated = None, functionName = ''getUser'', filePath = None\<rparr>"
  "getOperation collidingState getUserV2 =
     Some \<lparr>summary = ''Second'', description = None, tags = None, operationId = None,
           deprecated = None, functionName = ''GetUserHandler'', filePath = None\<rparr>"
  by (simp_all add: getOperation_def collidingState_def ApiOperation_def setOperation_def
      targetFunction_def initialState_def getUserV1_def getUserV2_def summaryOnly_def Let_def)

theorem colliding_handlers_last_wins_witness:
  "filter (resolvesTo collidingState ''/get-user'' ''get'') [getUserV1, getUserV2] =
     [getUserV1, getUserV2] \<and>
   map o_summary
     (operationsAt (generateOpenApiSpec userApiConfig collidingState [getUserV1, getUserV2])
        ''/get-user'' ''get'') = [Some ''Second'']"
proof -
  have f: "filter (resolvesTo collidingState ''/get-user'' ''get'') [getUserV1, getUserV2] =
           [getUserV1, getUserV2]"
    by (simp add: resolvesTo_def colliding_operations path_getUser_names method_getUser_names)
  from colliding_handlers_last_wins
         [of userApiConfig collidingState "[getUserV1, getUserV2]" "''/get-user''" "''get''"] f
  show ?thesis
    by (simp add: o_summary_generateOperation colliding_operations)
qed

section \<open>Responses of an operation\<close>

lemma digitValue_digitChar: "d < 10 \<Longrightarrow> digitValue (digitChar d) = d"
proof -
  assume "d < 10"
  then have "d \<in> {0, 1, 2, 3, 4, 5, 6, 7, 8, 9}" by auto
  then show ?thesis
    by (auto simp add: digitValue_def digitChar_def upt_rec)
qed

lemma digitChar_not_minus: "digitChar d \<noteq> CHR ''-''"
proof -
  have "d mod 10 < length ''0123456789''" by simp
  then have "''0123456789'' ! (d mod 10) \<in> set ''0123456789''" by (rule nth_mem)
  moreover have "CHR ''-'' \<notin> set ''0123456789''" by simp
  ultimately show ?thesis unfolding digitChar_def by metis
qed

lemma digitsValue_snoc: "digitsValue (ds @ [c]) = 10 * digitsValue ds + digitValue c"
  by (simp add: digitsValue_def)

lemma digitsValue_digitsOf: "digitsValue (digitsOf n) = n"
proof (induction n rule: digitsOf.induct)
  case (1 n)
  show ?case
  proof (cases "n < 10")
    case True
    then show ?thesis
      by (subst digitsOf.simps) (simp add: digitsValue_def digitValue_digitChar)
  next
    case False
    with "1" have "digitsValue (digitsOf (n div 10)) = n div 10" by simp
    with False show ?thesis
      by (subst digitsOf.simps) (simp add: digitsValue_snoc digitValue_digitChar)
  qed
qed

lemma hd_digitsOf: "\<exists>d ds. digitsOf n = digitChar d # ds"
proof (induction n rule: digitsOf.induct)
  case (1 n)
  show ?case
  proof (cases "n < 10")
    case True
    then show ?thesis by (subst digitsOf.simps) auto
  next
    case False
    with "1" obtain d ds where "digitsOf (n div 10) = digitChar d # ds" by blast
    with False show ?thesis by (subst digitsOf.simps) auto
  qed
qed

lemma numberToString_inj: "numberToString a = numberToString b \<longleftrightarrow> a = b"
proof
  assume e: "numberToString a = numberToString b"
  have neg: "\<And>x y. CHR ''-'' # digitsOf x \<noteq> digitsOf y"
  proof -
    fix x y
    obtain d ds where "digitsOf y = digitChar d # ds" using hd_digitsOf by blast
    then show "CHR ''-'' # digitsOf x \<noteq> digitsOf y"
      using digitChar_not_minus [of d] by auto
  qed
  show "a = b"
  proof (cases "a < 0")
    case True
    show ?thesis
    proof (cases "b < 0")
      case True
      with \<open>a < 0\<close> e have "digitsOf (nat (- a)) = digitsOf (nat (- b))"
        by (simp add: numberToString_def)
      then have "digitsValue (digitsOf (nat (- a))) = digitsValue (digitsOf (nat (- b)))"
        by simp
      then have "nat (- a) = nat (- b)" by (simp only: digitsValue_digitsOf)
      with True \<open>a < 0\<close> show ?thesis by simp
    next
      case False
      with True e neg [of "nat (- a)" "nat b"] show ?thesis
        by (simp add: numberToString_def)
    qed
  next
    case False
    show ?thesis
    proof (cases "b < 0")
      case True
      with False e neg [of "nat (- b)" "nat a"] show ?thesis
        by (simp add: numberToString_def)
    next
      case nb: False
      with False e have "digitsOf (nat a) = digitsOf (nat b)"
        by (simp add: numberToString_def)
      then have "digitsValue (digitsOf (nat a)) = digitsValue (digitsOf (nat b))"
        by simp
      then have "nat a = nat b" by (simp only: digitsValue_digitsOf)
      with False nb show ?thesis by simp
    qed
  qed
qed simp

lemma collect_fold: "collectResponses rs = foldResponses [] rs"
  by (simp add: collectResponses_def foldResponses_def)

lemma foldResponses_snoc:
  "foldResponses acc (rs @ [r]) =
     AList.update (numberToString (status r)) (responseFromMetadata r) (foldResponses acc rs)"
  by (simp add: foldResponses_def)

lemma map_of_foldResponses:
  "map_of (foldResponses acc rs) k =
     (if filter (\<lambda>r. numberToString (status r) = k) rs = [] then map_of acc k
      else Some (responseFromMetadata (last (filter (\<lambda>r. numberToString (status r) = k) rs))))"
proof (induction rs rule: rev_induct)
  case Nil
  then show ?case by (simp add: foldResponses_def)
next
  case (snoc r rs)
  then show ?case by (simp add: foldResponses_snoc update_conv')
qed

lemma distinct_foldResponses:
  "distinct (map fst acc) \<Longrightarrow> distinct (map fst (foldResponses acc rs))"
  by (induction rs rule: rev_induct) (simp_all add: foldResponses_snoc distinct_update foldResponses_def)

lemma keys_foldResponses:
  "fst ` set (foldResponses acc rs) = fst ` set acc \<union> (\<lambda>r. numberToString (status r)) ` set rs"
  by (induction rs rule: rev_induct) (auto simp add: foldResponses_snoc dom_update foldResponses_def)

lemma collectResponses_empty: "collectResponses rs = [] \<longleftrightarrow> rs = []"
proof (cases rs rule: rev_cases)
  case Nil
  then show ?thesis by (simp add: collectResponses_def)
next
  case (snoc ys y)
  then show ?thesis by (simp add: collect_fold foldResponses_snoc)
qed

lemma collectResponses_derived:
  assumes "kv \<in> set (collectResponses rs)"
  shows "\<exists>r \<in> set rs. kv = (numberToString (status r), responseFromMetadata r)"
proof -
  obtain k v where kv: "kv = (k, v)" by (cases kv)
  have "distinct (map fst (collectResponses rs))"
    unfolding collect_fold by (rule distinct_foldResponses) simp
  with assms kv have m: "map_of (collectResponses rs) k = Some v" by simp
  let ?f = "filter (\<lambda>r. numberToString (status r) = k) rs"
  from m have ne: "?f \<noteq> []" and v: "v = responseFromMetadata (last ?f)"
    by (auto simp add: collect_fold map_of_foldResponses split: if_splits)
  from ne have "last ?f \<in> set ?f" by (rule last_in_set)
  then have mem: "last ?f \<in> set rs" and key: "numberToString (status (last ?f)) = k" by auto
  from v kv key
  have "kv = (numberToString (status (last ?f)), responseFromMetadata (last ?f))" by simp
  then show ?thesis using mem by (rule bexI)
qed


lemma responses_getHandlerMetadata: "responses (getHandlerMetadata s h) = getResponses s h"
  by (simp add: getHandlerMetadata_def)

lemma o_responses_generateOperation:
  "o_responses (generateOperation md) = generateResponses (responses md)"
  by (simp add: generateOperation_def Let_def)

lemma numberToString_examples:
  "numberToString 200 = ''200''" "numberToString 404 = ''404''"
  by (simp_all add: numberToString_def digitsOf.simps digitChar_def)

lemma responseFromMetadata_fallback:
  "responseFromMetadata r = fallbackResponse \<longleftrightarrow> equalsFallback r"
  by (auto simp add: responseFromMetadata_def fallbackResponse_def equalsFallback_def Let_def
      split: option.splits)

lemma gettingStarted_responses:
  "getResponses gettingStartedState helloHandler =
     [\<lparr>status = 200, response_description = Some ''Successful response'',
       response_type = None,
       response_example = Some (JObj [(''message'', JStr ''Hello, World!'')]),
       response_headers = None, response_content = None, order = 0\<rparr>]"
  by (simp add: gettingStartedState_def ApiOperation_def ApiResponse_def setOperation_def
      addResponse_def getResponses_def targetFunction_def initialState_def helloHandler_def
      Let_def)

lemma gettingStarted_operation:
  "getOperation gettingStartedState helloHandler =
     Some \<lparr>summary = ''Hello World'', description = Some ''Returns a simple greeting'',
           tags = None, operationId = None, deprecated = None,
           functionName = ''helloHandler'', filePath = None\<rparr>"
  by (simp add: gettingStartedState_def ApiOperation_def ApiResponse_def setOperation_def
      addResponse_def getOperation_def targetFunction_def initialState_def helloHandler_def
      Let_def)

lemma helloHandler_route:
  "generatePathFromFunction ''helloHandler'' = ''/hello''"
  "determineHttpMethod ''helloHandler'' = ''get''"
  by (simp_all add: generatePathFromFunction_def removeHandlerSuffix_def determineHttpMethod_def
      toLowerCase_def toLowerChar_def isUpperAZ_def upperAZ_def lowerAZ_def)

lemma gettingStarted_responses_object:
  "o_responses (generateOperation (getHandlerMetadata gettingStartedState helloHandler)) =
     [(''200'', \<lparr>r_description = ''Successful response'', r_content = None\<rparr>)]"
  by (simp add: o_responses_generateOperation responses_getHandlerMetadata
      gettingStarted_responses generateResponses_def collectResponses_def
      responseFromMetadata_def numberToString_examples Let_def)

text \<open>
  Claim C8, as stated, fails. The handler of the Getting Started guide carries one
  response annotation, \<open>{status: 200, description: "Successful response", example}\<close>,
  with no type and no content. It is included in the document at \<open>GET /hello\<close>. The
  loop writes \<open>responses["200"] = {description: "Successful response"}\<close> (the example
  is dropped, since there is no content to attach it to), the fallback is not taken, and
  the responses map contains an entry equal to the synthetic one although the handler has
  one response metadata entry.
\<close>

theorem annotated_response_equals_fallback_entry:
  "length (getResponses gettingStartedState helloHandler) = 1 \<and>
   map_option o_responses
     (lookupOperation (generateOpenApiSpec userApiConfig gettingStartedState [helloHandler])
        ''/hello'' ''get'') =
     Some [(''200'', \<lparr>r_description = ''Successful response'', r_content = None\<rparr>)] \<and>
   \<not> ((''200'', \<lparr>r_description = ''Successful response'', r_content = None\<rparr>)
          \<in> set (o_responses
                   (generateOperation (getHandlerMetadata gettingStartedState helloHandler)))
        \<longleftrightarrow> getResponses gettingStartedState helloHandler = [])"
proof -
  have "lookupOperation (generateOpenApiSpec userApiConfig gettingStartedState [helloHandler])
          ''/hello'' ''get'' =
        Some (generateOperation (getHandlerMetadata gettingStartedState helloHandler))"
    by (simp add: lookupOperation_def pathsLookup_def generatePaths_def
        addHandlerPath_Some [OF gettingStarted_operation] helloHandler_route)
  then show ?thesis
    by (simp add: gettingStarted_responses_object gettingStarted_responses)
qed

text \<open>
  Claim C8, amended. The fallback entry
  \<open>"200": {description: "Successful response"}\<close> is synthesised exactly when the
  handler has no response metadata: then the responses are that single entry, and the
  test the source makes before it falls back (the map collected from the metadata has no
  key) holds only then. With at least one metadata entry the keys of the map are exactly
  the stringified status codes of the entries and every entry is the response object
  built from a metadata entry. By value, the map contains the entry
  \<open>"200": {description: "Successful response"}\<close> if and only if the handler has no
  response metadata, or its last metadata entry with status 200 is itself described as
  \<open>Successful response\<close> and has no type reference (or an empty one) and no
  custom content.
\<close>

theorem fallback_entry_by_value:
  "(responses md = [] \<longrightarrow>
      o_responses (generateOperation md) = [(''200'', fallbackResponse)]) \<and>
   (responses md \<noteq> [] \<longrightarrow>
      fst ` set (o_responses (generateOperation md)) =
        (\<lambda>r. numberToString (status r)) ` set (responses md) \<and>
      (\<forall>kv \<in> set (o_responses (generateOperation md)).
         \<exists>r \<in> set (responses md). kv = (numberToString (status r), responseFromMetadata r))) \<and>
   (length (collectResponses (responses md)) = 0 \<longleftrightarrow> responses md = []) \<and>
   ((''200'', fallbackResponse) \<in> set (o_responses (generateOperation md)) \<longleftrightarrow>
      responses md = [] \<or>
      (filter (\<lambda>r. status r = 200) (responses md) \<noteq> [] \<and>
       equalsFallback (last (filter (\<lambda>r. status r = 200) (responses md)))))"
proof (intro conjI impI)
  show "length (collectResponses (responses md)) = 0 \<longleftrightarrow> responses md = []"
    by (simp add: collectResponses_empty)
next
  assume "responses md = []"
  then show "o_responses (generateOperation md) = [(''200'', fallbackResponse)]"
    by (simp add: o_responses_generateOperation generateResponses_def collectResponses_def
        fallbackResponse_def)
next
  assume ne: "responses md \<noteq> []"
  then have g: "o_responses (generateOperation md) = collectResponses (responses md)"
    by (simp add: o_responses_generateOperation generateResponses_def Let_def
        collectResponses_empty)
  show "fst ` set (o_responses (generateOperation md)) =
        (\<lambda>r. numberToString (status r)) ` set (responses md)"
    unfolding g collect_fold keys_foldResponses by simp
  show "\<forall>kv \<in> set (o_responses (generateOperation md)).
         \<exists>r \<in> set (responses md). kv = (numberToString (status r), responseFromMetadata r)"
    unfolding g using collectResponses_derived [of _ "responses md"] by blast
next
  let ?f = "filter (\<lambda>r. status r = 200) (responses md)"
  show "(''200'', fallbackResponse) \<in> set (o_responses (generateOperation md)) \<longleftrightarrow>
        responses md = [] \<or> (?f \<noteq> [] \<and> equalsFallback (last ?f))"
  proof (cases "responses md = []")
    case True
    then show ?thesis
      by (simp add: o_responses_generateOperation generateResponses_def collectResponses_def
          fallbackResponse_def)
  next
    case False
    then have g: "o_responses (generateOperation md) = collectResponses (responses md)"
      by (simp add: o_responses_generateOperation generateResponses_def Let_def
          collectResponses_empty)
    have d: "distinct (map fst (collectResponses (responses md)))"
      unfolding collect_fold by (rule distinct_foldResponses) simp
    have fk: "filter (\<lambda>r. numberToString (status r) = ''200'') (responses md) = ?f"
      using numberToString_inj [of _ 200] by (simp add: numberToString_examples)
    have m: "map_of (collectResponses (responses md)) ''200'' =
             (if ?f = [] then None else Some (responseFromMetadata (last ?f)))"
      by (simp add: collect_fold map_of_foldResponses fk)
    have "(''200'', fallbackResponse) \<in> set (collectResponses (responses md)) \<longleftrightarrow>
          map_of (collectResponses (responses md)) ''200'' = Some fallbackResponse"
      using d by simp
    then show ?thesis
      using False by (simp add: g m responseFromMetadata_fallback)
  qed
qed

theorem fallback_entry_by_value_witness:
  "responses noResponsesMeta = [] \<and>
   o_responses (generateOperation noResponsesMeta) = [(''200'', fallbackResponse)] \<and>
   responses notFoundOnlyMeta \<noteq> [] \<and>
   fst ` set (o_responses (generateOperation notFoundOnlyMeta)) = {''404''} \<and>
   (''200'', fallbackResponse) \<notin> set (o_responses (generateOperation notFoundOnlyMeta)) \<and>
   responses (getHandlerMetadata gettingStartedState helloHandler) \<noteq> [] \<and>
   (''200'', fallbackResponse)
     \<in> set (o_responses (generateOperation (getHandlerMetadata gettingStartedState helloHandler)))"
proof -
  have a: "responses noResponsesMeta = []"
    by (simp add: noResponsesMeta_def)
  have b: "responses notFoundOnlyMeta = [responseMetadataOf (plainResponse 404 ''Not found'') 0]"
    by (simp add: notFoundOnlyMeta_def)
  have c: "status (responseMetadataOf (plainResponse 404 ''Not found'') 0) = 404"
    by (simp add: responseMetadataOf_def plainResponse_def)
  have e: "equalsFallback
             \<lparr>status = 200, response_description = Some ''Successful response'',
              response_type = None,
              response_example = Some (JObj [(''message'', JStr ''Hello, World!'')]),
              response_headers = None, response_content = None, order = 0\<rparr>"
    by (simp add: equalsFallback_def)
  have g: "responses (getHandlerMetadata gettingStartedState helloHandler) =
           getResponses gettingStartedState helloHandler"
    by (simp add: responses_getHandlerMetadata)
  from fallback_entry_by_value [of noResponsesMeta] a
  have w1: "o_responses (generateOperation noResponsesMeta) = [(''200'', fallbackResponse)]"
    by simp
  from fallback_entry_by_value [of notFoundOnlyMeta] b c
  have w2: "fst ` set (o_responses (generateOperation notFoundOnlyMeta)) = {''404''}"
       "(''200'', fallbackResponse) \<notin> set (o_responses (generateOperation notFoundOnlyMeta))"
    by (simp_all add: numberToString_examples)
  from fallback_entry_by_value [of "getHandlerMetadata gettingStartedState helloHandler"] e
  have w3: "(''200'', fallbackResponse)
     \<in> set (o_responses (generateOperation (getHandlerMetadata gettingStartedState helloHandler)))"
    by (simp add: g gettingStarted_responses)
  from a b w1 w2 w3 show ?thesis by (simp add: g gettingStarted_responses)
qed




section \<open>Schema mapper\<close>

text \<open>
  Claim C7. The schema mapper is a total function into schemas: the source has no
  \<^verbatim>\<open>throw\<close> on any path, so the model has no failure value. A string reference
  that is one of the six known type names maps to the schema of that type, \<open>array\<close>
  with \<open>items = {type: string}\<close>; every other string maps to \<open>{type: string}\<close>;
  a constructor maps to \<open>{type: object, description: "Schema for <name>"}\<close>. (A
  reference that is neither, which the declared type excludes, maps to
  \<open>{type: object}\<close>.)
\<close>

theorem schema_mapper_cases:
  "generateSchemaFromType (TypeString t) =
     (if t \<in> set primitiveTypeNames
      then SchemaObject (Some t)
             (if t = ''array'' then Some (SchemaObject (Some ''string'') None None None) else None)
             None None
      else SchemaObject (Some ''string'') None None None) \<and>
   generateSchemaFromType (TypeConstructor n) =
     SchemaObject (Some ''object'') None (Some (''Schema for '' @ n)) None \<and>
   generateSchemaFromType TypeOther = SchemaObject (Some ''object'') None None None"
  by (auto simp add: generateSchemaFromStringType_def primitiveTypeNames_def)

theorem schema_mapper_cases_witness:
  "generateSchemaFromType (TypeString ''string'') = SchemaObject (Some ''string'') None None None \<and>
   generateSchemaFromType (TypeString ''number'') = SchemaObject (Some ''number'') None None None \<and>
   generateSchemaFromType (TypeString ''integer'') = SchemaObject (Some ''integer'') None None None \<and>
   generateSchemaFromType (TypeString ''boolean'') = SchemaObject (Some ''boolean'') None None None \<and>
   generateSchemaFromType (TypeString ''array'') =
     SchemaObject (Some ''array'') (Some (SchemaObject (Some ''string'') None None None)) None None \<and>
   generateSchemaFromType (TypeString ''object'') = SchemaObject (Some ''object'') None None None \<and>
   generateSchemaFromType (TypeString ''uuid'') = SchemaObject (Some ''string'') None None None \<and>
   generateSchemaFromType (TypeConstructor ''User'') =
     SchemaObject (Some ''object'') None (Some ''Schema for User'') None"
  using schema_mapper_cases [of "''string''" "''User''"] schema_mapper_cases [of "''number''"]
    schema_mapper_cases [of "''integer''"] schema_mapper_cases [of "''boolean''"]
    schema_mapper_cases [of "''array''"] schema_mapper_cases [of "''object''"]
    schema_mapper_cases [of "''uuid''"]
  by (simp add: primitiveTypeNames_def)

section \<open>End-to-end scenario\<close>

lemma getUser_metadata:
  "getHandlerMetadata (annotateGetUser (clearMetadata getUserHandler s)) getUserHandler =
   \<lparr>operation = Some \<lparr>summary = ''Get user by ID'', description = None, tags = None,
                 operationId = None, deprecated = None, functionName = ''getUserHandler'',
                 filePath = None\<rparr>,
    responses =
      [\<lparr>status = 200, response_description = None, response_type = Some (TypeString ''object''),
        response_example = None, response_headers = None, response_content = None,
        order = responseOrder s\<rparr>,
       \<lparr>status = 404, response_description = None, response_type = None,
        response_example = None, response_headers = None, response_content = None,
        order = responseOrder s + 1\<rparr>],
    params =
      [\<lparr>name = ''userId'', param_description = None, required = Some True,
        param_type = Some (TypeString ''string''), param_example = None,
        param_enum = None, param_deprecated = None, param_in = ''path'',
        param_order = paramOrder s\<rparr>]\<rparr>"
  by (simp add: getHandlerMetadata_def annotateGetUser_def clearMetadata_def getUserHandler_def
      ApiResponse_def ApiParam_def ApiOperation_def targetFunction_def addResponse_def addParam_def
      setOperation_def getOperation_def getResponses_def getParams_def summaryOnly_def Let_def)

lemma getUser_operation:
  "lookupOperation (getUserDocument s) ''/get-user'' ''get'' =
     Some (generateOperation
             (getHandlerMetadata (annotateGetUser (clearMetadata getUserHandler s)) getUserHandler))"
  by (simp add: lookupOperation_def pathsLookup_def getUserDocument_def generatePaths_def
      addHandlerPath_def getUser_metadata path_getUserHandler method_getUserHandler Let_def)

lemma getUser_responses:
  "o_responses (generateOperation
      (getHandlerMetadata (annotateGetUser (clearMetadata getUserHandler s)) getUserHandler)) =
   [(''200'', \<lparr>r_description = ''Response 200'',
              r_content = Some [(''application/json'',
                \<lparr>schema = Some (SchemaObject (Some ''object'') None None None),
                 example = None\<rparr>)]\<rparr>),
    (''404'', \<lparr>r_description = ''Response 404'', r_content = None\<rparr>)]"
  by (simp add: getUser_metadata o_responses_generateOperation generateResponses_def
      collectResponses_def responseFromMetadata_def numberToString_examples
      generateSchemaFromStringType_def Let_def)

text \<open>
  Claim C1. Annotate \<open>getUserHandler\<close> (with no metadata before, whatever else
  the store and the counters hold) with the summary \<open>Get user by ID\<close>, the required
  path parameter \<open>userId\<close> of type \<open>string\<close>, a response 200 of type
  \<open>object\<close> and a response 404 without a type, and assemble with the configuration
  \<open>{info: {title: "User API", version: "1.0.0"}}\<close>. The document has an operation
  at \<open>paths["/get-user"].get\<close> whose summary is \<open>Get user by ID\<close>, whose
  parameters have length 1, whose response \<open>"200"\<close> has the schema type
  \<open>object\<close> under \<open>content["application/json"]\<close>, and whose response
  \<open>"404"\<close> has a description.
\<close>

theorem get_user_scenario:
  "\<exists>op r200 c mt sch r404.
     lookupOperation (getUserDocument s) ''/get-user'' ''get'' = Some op \<and>
     o_summary op = Some ''Get user by ID'' \<and>
     map_option length (o_parameters op) = Some 1 \<and>
     map_of (o_responses op) ''200'' = Some r200 \<and>
     r_content r200 = Some c \<and>
     map_of c ''application/json'' = Some mt \<and>
     schema mt = Some sch \<and>
     schemaType sch = Some ''object'' \<and>
     map_of (o_responses op) ''404'' = Some r404 \<and>
     r_description r404 = ''Response 404''"
proof -
  let ?md = "getHandlerMetadata (annotateGetUser (clearMetadata getUserHandler s)) getUserHandler"
  have s: "o_summary (generateOperation ?md) = Some ''Get user by ID''"
    by (simp add: o_summary_generateOperation getUser_metadata)
  have p: "map_option length (o_parameters (generateOperation ?md)) = Some 1"
    by (simp add: generateOperation_def getUser_metadata Let_def)
  show ?thesis
    using getUser_operation [of s] s p
    by (simp add: getUser_responses)
qed

theorem get_user_scenario_witness:
  "\<exists>op. lookupOperation (getUserDocument initialState) ''/get-user'' ''get'' = Some op \<and>
        o_summary op = Some ''Get user by ID'' \<and>
        map_option length (o_parameters op) = Some 1"
  using get_user_scenario [of initialState] by blast

end
